theory Spec2Isabelle
  imports Main "HOL-Library.Sublist" "HOL-Library.AList"
begin

section \<open>Educational content generator: the generation pipeline of app.py\<close>

text \<open>
  The pipeline of class ContentGenerator: clean_text, extract_key_concepts,
  generate_assignments, create_multiple_choice_question, generate_distractors,
  generate_quiz_questions, create_generic_question and generate_content.

  Python strings are modelled as \<^typ>\<open>string\<close>: a character is a code point below 256,
  classified as Python's Unicode tables classify it (the Latin-1 range).
\<close>

subsection \<open>Python's str methods and regular expressions\<close>

text \<open>Code points that str.isspace, str.strip, str.split and the regex class \s accept.\<close>

definition isspace :: "char \<Rightarrow> bool" where
  "isspace c =
     (let n = (of_char c :: nat)
      in (9 \<le> n \<and> n \<le> 13) \<or> (28 \<le> n \<and> n \<le> 32) \<or> n = 133 \<or> n = 160)"

text \<open>The regex class [A-Za-z].\<close>

definition is_ascii_letter :: "char \<Rightarrow> bool" where
  "is_ascii_letter c =
     (let n = (of_char c :: nat)
      in (65 \<le> n \<and> n \<le> 90) \<or> (97 \<le> n \<and> n \<le> 122))"

text \<open>The regex class \w on str patterns: alphanumeric code points and the underscore.\<close>

definition is_word_char :: "char \<Rightarrow> bool" where
  "is_word_char c =
     (let n = (of_char c :: nat)
      in (48 \<le> n \<and> n \<le> 57) \<or> (65 \<le> n \<and> n \<le> 90) \<or> n = 95 \<or> (97 \<le> n \<and> n \<le> 122)
         \<or> n = 170 \<or> n = 178 \<or> n = 179 \<or> n = 181 \<or> n = 185 \<or> n = 186
         \<or> (188 \<le> n \<and> n \<le> 190) \<or> (192 \<le> n \<and> n \<le> 214) \<or> (216 \<le> n \<and> n \<le> 246)
         \<or> 248 \<le> n)"

text \<open>str.isupper on a one-character string.\<close>

definition isupper :: "char \<Rightarrow> bool" where
  "isupper c =
     (let n = (of_char c :: nat)
      in (65 \<le> n \<and> n \<le> 90) \<or> (192 \<le> n \<and> n \<le> 214) \<or> (216 \<le> n \<and> n \<le> 222))"

text \<open>str.lower, one character at a time.\<close>

definition lower_char :: "char \<Rightarrow> char" where
  "lower_char c = (if isupper c then char_of ((of_char c :: nat) + 32) else c)"

definition lower :: "string \<Rightarrow> string" where
  "lower s = map lower_char s"

text \<open>str.strip() without argument, and str.strip(chars).\<close>

definition strip :: "string \<Rightarrow> string" where
  "strip s = rev (dropWhile isspace (rev (dropWhile isspace s)))"

definition strip_chars :: "string \<Rightarrow> string \<Rightarrow> string" where
  "strip_chars chars s =
     rev (dropWhile (\<lambda>c. c \<in> set chars) (rev (dropWhile (\<lambda>c. c \<in> set chars) s)))"

text \<open>re.sub(r'\s+', ' ', s): every maximal run of whitespace becomes one space.\<close>

function sub_ws :: "string \<Rightarrow> string" where
  "sub_ws [] = []"
| "sub_ws (c # cs) =
     (if isspace c then CHR '' '' # sub_ws (dropWhile isspace cs) else c # sub_ws cs)"
  by pat_completeness auto
termination
  by (relation "measure length") (auto simp: length_dropWhile_le less_Suc_eq_le)

text \<open>str.split() without argument: the maximal runs of non-whitespace characters.\<close>

function split_ws :: "string \<Rightarrow> string list" where
  "split_ws [] = []"
| "split_ws (c # cs) =
     (if isspace c then split_ws cs
      else (c # takeWhile (\<lambda>d. \<not> isspace d) cs) # split_ws (dropWhile (\<lambda>d. \<not> isspace d) cs))"
  by pat_completeness auto
termination
  by (relation "measure length") (auto simp: length_dropWhile_le less_Suc_eq_le)

text \<open>
  str.replace(old, new) without a count: every occurrence of old, found from left to right
  without overlap, becomes new. For the empty old, new is put before every character and
  at the end.
\<close>

function py_replace :: "string \<Rightarrow> string \<Rightarrow> string \<Rightarrow> string" where
  "py_replace s old new =
     (if old = [] then new @ concat (map (\<lambda>c. c # new) s)
      else if s = [] then []
      else if prefix old s then new @ py_replace (drop (length old) s) old new
      else hd s # py_replace (tl s) old new)"
  by pat_completeness auto
termination
  by (relation "measure (\<lambda>(s, old, new). length s)") auto

declare py_replace.simps [simp del]

text \<open>The separator class [.!?] of re.split.\<close>

definition is_sentence_end :: "char \<Rightarrow> bool" where
  "is_sentence_end c = (c = CHR ''.'' \<or> c = CHR ''!'' \<or> c = CHR ''?'')"

text \<open>
  re.split(r'[.!?]+', s): the pieces of s between the maximal runs of separators; a run at
  the start or at the end of s leaves an empty piece there.
\<close>

function re_split :: "string \<Rightarrow> string list" where
  "re_split s =
     (case dropWhile (\<lambda>c. \<not> is_sentence_end c) s of
        [] \<Rightarrow> [s]
      | c # rest \<Rightarrow>
          takeWhile (\<lambda>c. \<not> is_sentence_end c) s # re_split (dropWhile is_sentence_end rest))"
  by pat_completeness auto
termination
proof (relation "measure length", simp)
  fix s :: string and c rest
  assume eq: "dropWhile (\<lambda>c. \<not> is_sentence_end c) s = c # rest"
  have "length (dropWhile is_sentence_end rest) \<le> length rest"
    by (rule length_dropWhile_le)
  also have "length rest < length (dropWhile (\<lambda>c. \<not> is_sentence_end c) s)"
    by (simp add: eq)
  also have "\<dots> \<le> length s"
    by (rule length_dropWhile_le)
  finally show "(dropWhile is_sentence_end rest, s) \<in> measure length"
    by simp
qed

declare re_split.simps [simp del]

text \<open>
  re.findall(r'\b[A-Za-z]+\b', s). A match is a maximal run of ASCII letters with a word
  boundary on both sides: no \w character just before it and none just after it. The
  flag says whether the character before the current position is a \w character.
\<close>

function findall_words :: "bool \<Rightarrow> string \<Rightarrow> string list" where
  "findall_words prev [] = []"
| "findall_words prev (c # cs) =
     (if is_ascii_letter c then
        (let run = c # takeWhile is_ascii_letter cs;
             rest = dropWhile is_ascii_letter cs
         in (if \<not> prev \<and> (rest = [] \<or> \<not> is_word_char (hd rest)) then [run] else [])
            @ findall_words True rest)
      else findall_words (is_word_char c) cs)"
  by pat_completeness auto
termination
  by (relation "measure (\<lambda>(prev, s). length s)") (auto simp: length_dropWhile_le less_Suc_eq_le)

definition re_findall :: "string \<Rightarrow> string list" where
  "re_findall s = findall_words False s"

text \<open>The in operator on strings: old occurs in s as a contiguous piece.\<close>

fun str_in :: "string \<Rightarrow> string \<Rightarrow> bool" where
  "str_in old [] = (old = [])"
| "str_in old (c # cs) = (prefix old (c # cs) \<or> str_in old cs)"

subsection \<open>Exceptions, lists and the random module\<close>

datatype py_error = IndexError | ValueError

text \<open>list.index(x): the first position of x, ValueError when x is absent.\<close>

fun index :: "'a list \<Rightarrow> 'a \<Rightarrow> py_error + nat" where
  "index [] x = Inl ValueError"
| "index (y # ys) x =
     (if y = x then Inr 0
      else (case index ys x of Inl e \<Rightarrow> Inl e | Inr i \<Rightarrow> Inr (Suc i)))"

text \<open>
  The state of the random generator is the list of the raw numbers it will still give;
  an exhausted list gives 0. randbelow n is below n for every positive n.
\<close>

type_synonym rng = "nat list"

definition randbelow :: "nat \<Rightarrow> rng \<Rightarrow> nat \<times> rng" where
  "randbelow n g = (case g of [] \<Rightarrow> (0, []) | r # g' \<Rightarrow> (r mod n, g'))"

text \<open>random.choice(seq): IndexError on an empty sequence.\<close>

definition choice :: "'a list \<Rightarrow> rng \<Rightarrow> py_error + ('a \<times> rng)" where
  "choice seq g =
     (if seq = [] then Inl IndexError
      else (let (i, g') = randbelow (length seq) g in Inr (seq ! i, g')))"

text \<open>
  random.shuffle(x): for i from len(x) - 1 down to 1, exchange x[i] and x[j] with
  j = randbelow(i + 1).
\<close>

fun shuffle_from :: "nat \<Rightarrow> 'a list \<Rightarrow> rng \<Rightarrow> 'a list \<times> rng" where
  "shuffle_from 0 x g = (x, g)"
| "shuffle_from (Suc i) x g =
     (let (j, g') = randbelow (Suc i + 1) g
      in shuffle_from i (x[Suc i := x ! j, j := x ! Suc i]) g')"

definition shuffle :: "'a list \<Rightarrow> rng \<Rightarrow> 'a list \<times> rng" where
  "shuffle x g = shuffle_from (length x - 1) x g"

text \<open>
  random.sample(population, k), by selection from a pool: k elements at k different
  positions, ValueError when k is larger than the population. (This is the selection
  the library makes for populations of up to 21 elements; for larger ones it draws
  positions until it has k different ones.)
\<close>

fun sample_from :: "'a list \<Rightarrow> nat \<Rightarrow> nat \<Rightarrow> rng \<Rightarrow> 'a list \<times> rng" where
  "sample_from pool m 0 g = ([], g)"
| "sample_from pool m (Suc k) g =
     (let (j, g1) = randbelow m g;
          (rest, g2) = sample_from (pool[j := pool ! (m - 1)]) (m - 1) k g1
      in (pool ! j # rest, g2))"

definition sample :: "'a list \<Rightarrow> nat \<Rightarrow> rng \<Rightarrow> py_error + ('a list \<times> rng)" where
  "sample population k g =
     (if length population < k then Inl ValueError
      else Inr (sample_from population (length population) k g))"

text \<open>
  list(set(xs)): the different elements of xs, in the order of the hash table. That order
  is not fixed by the language; it is a parameter here, a list of numbers h that permutes
  the elements as a shuffle does.
\<close>

definition list_of_set :: "rng \<Rightarrow> 'a list \<Rightarrow> 'a list" where
  "list_of_set h xs = fst (shuffle (remdups xs) h)"

subsection \<open>The data model\<close>

record quiz_question =
  question :: string
  options :: "string list"
  correct_answer :: string
  correct_text :: string

record generation_result =
  assignments :: "string list"
  quiz_questions :: "quiz_question list"
  concepts_found :: "string list"

subsection \<open>ContentGenerator\<close>

definition essay_starters :: "string list" where
  "essay_starters =
     [''Analyze and discuss'',
      ''Compare and contrast'',
      ''Evaluate the significance of'',
      ''Explain the relationship between'',
      ''Critically examine'',
      ''Describe the impact of'',
      ''What are the main factors that contribute to'',
      ''How does'',
      ''Why is it important to understand'']"

definition mc_starters :: "string list" where
  "mc_starters =
     [''What is'',
      ''Which of the following'',
      ''What best describes'',
      ''According to the text, what'',
      ''Which statement is true about'',
      ''What can be inferred about'',
      ''The main idea of'',
      ''What is the primary purpose of'']"

definition clean_text :: "string \<Rightarrow> string" where
  "clean_text text = sub_ws (strip text)"

text \<open>
  extract_key_concepts. word_freq is a dict: its keys stay in the order of their first
  insertion. The loop over the words of every sentence updates the pair
  (concepts, word_freq); word[0] is read only when len(word) > 3.
\<close>

definition word_step ::
  "string \<Rightarrow> string list \<times> (string \<times> nat) list \<Rightarrow> string list \<times> (string \<times> nat) list" where
  "word_step word st =
     (let (concepts, word_freq) = st
      in if length word > 3 then
           (let word_lower = lower word;
                word_freq' =
                  AList.update word_lower
                    ((case map_of word_freq word_lower of None \<Rightarrow> 0 | Some n \<Rightarrow> n) + 1) word_freq
            in if isupper (hd word)
                  \<and> lower word \<notin> set [''the'', ''this'', ''that'', ''they'', ''there'']
               then (concepts @ [word], word_freq')
               else (concepts, word_freq'))
         else (concepts, word_freq))"

definition extract_key_concepts :: "rng \<Rightarrow> string \<Rightarrow> string list" where
  "extract_key_concepts h text =
     (let sentences = re_split text;
          (concepts, word_freq) =
            fold (\<lambda>sentence st. fold word_step (re_findall sentence) st) sentences ([], []);
          frequent_words =
            map fst (filter (\<lambda>(word, freq). freq > 1 \<and> length word > 4) word_freq)
      in take 10 (list_of_set h (concepts @ take 5 frequent_words)))"

text \<open>generate_assignments: the first and the second assignment, then the list of both.\<close>

definition first_assignment :: "string list \<Rightarrow> rng \<Rightarrow> py_error + (string \<times> rng)" where
  "first_assignment concepts g =
     (if concepts \<noteq> [] then
        (case choice concepts g of
           Inl e \<Rightarrow> Inl e
         | Inr (main_concept, g1) \<Rightarrow>
             (case choice essay_starters g1 of
                Inl e \<Rightarrow> Inl e
              | Inr (starter, g2) \<Rightarrow>
                  Inr (starter @ '' '' @ lower main_concept
                       @ '' as discussed in the provided material. Support your analysis with specific examples and explain its broader implications.'',
                       g2)))
      else Inr (''Analyze the main themes presented in the provided text and discuss their significance with supporting examples.'', g))"

definition second_assignment :: "string list \<Rightarrow> rng \<Rightarrow> py_error + (string \<times> rng)" where
  "second_assignment concepts g =
     (if length concepts \<ge> 2 then
        (case sample concepts 2 g of
           Inl e \<Rightarrow> Inl e
         | Inr (picked, g1) \<Rightarrow>
             (case picked of
                [concept1, concept2] \<Rightarrow>
                  Inr (''Compare and contrast '' @ lower concept1 @ '' and '' @ lower concept2
                       @ ''. Discuss how these concepts relate to each other and their importance in the overall context.'',
                       g1)
              | _ \<Rightarrow> Inl ValueError))
      else Inr (''Evaluate the effectiveness of the arguments presented in the text. What evidence supports the main points, and what questions remain unanswered?'', g))"

definition generate_assignments ::
  "string \<Rightarrow> string list \<Rightarrow> rng \<Rightarrow> py_error + (string list \<times> rng)" where
  "generate_assignments text concepts g =
     (case first_assignment concepts g of
        Inl e \<Rightarrow> Inl e
      | Inr (assignment1, g1) \<Rightarrow>
          (case second_assignment concepts g1 of
             Inl e \<Rightarrow> Inl e
           | Inr (assignment2, g2) \<Rightarrow> Inr ([assignment1, assignment2], g2)))"

definition generate_distractors :: "string \<Rightarrow> string list \<Rightarrow> string list" where
  "generate_distractors answer concepts =
     (let other_concepts = filter (\<lambda>c. lower c \<noteq> lower answer) concepts;
          distractors = take 2 other_concepts;
          generic_distractors =
            [''Not '' @ lower answer, ''Opposite of '' @ lower answer, ''None of the above'']
      in take 3 (distractors @ generic_distractors))"

definition blank_marker :: string where
  "blank_marker = ''______''"

text \<open>
  create_multiple_choice_question: None where the source returns None. The question text
  is first the sentence with the answer replaced, then the templated one when the marker
  is not in it.
\<close>

definition answer_candidates :: "string list \<Rightarrow> string list" where
  "answer_candidates words =
     filter (\<lambda>word. length word > 4
               \<and> lower word \<notin> set [''through'', ''because'', ''however'', ''therefore'', ''although''])
       words"

definition question_text_of :: "string \<Rightarrow> string \<Rightarrow> rng \<Rightarrow> py_error + (string \<times> rng)" where
  "question_text_of sentence answer g =
     (let question_text = py_replace sentence answer blank_marker
      in if \<not> str_in blank_marker question_text then
           (case choice mc_starters g of
              Inl e \<Rightarrow> Inl e
            | Inr (starter, g1) \<Rightarrow>
                Inr (starter @ '' mentioned in the following context: '' @ [CHR 0x27]
                     @ take 50 sentence @ ''...'' @ [CHR 0x27] @ ''?'', g1))
         else Inr (question_text, g))"

definition create_multiple_choice_question ::
  "string \<Rightarrow> string list \<Rightarrow> rng \<Rightarrow> py_error + (quiz_question option \<times> rng)" where
  "create_multiple_choice_question sentence0 concepts g =
     (let sentence = strip sentence0
      in if sentence = [] then Inr (None, g)
         else if answer_candidates (split_ws sentence) = [] then Inr (None, g)
         else
           (case choice (answer_candidates (split_ws sentence)) g of
              Inl e \<Rightarrow> Inl e
            | Inr (word, g1) \<Rightarrow>
                (let answer = strip_chars ''.,!?'' word
                 in case question_text_of sentence answer g1 of
                      Inl e \<Rightarrow> Inl e
                    | Inr (question_text, g2) \<Rightarrow>
                        (let distractors = generate_distractors answer concepts;
                             (opts, g3) = shuffle (answer # distractors) g2
                         in case index opts answer of
                              Inl e \<Rightarrow> Inl e
                            | Inr correct_index \<Rightarrow>
                                Inr (Some \<lparr>question = question_text,
                                           options = opts,
                                           correct_answer = [char_of (65 + correct_index)],
                                           correct_text = answer\<rparr>, g3)))))"

definition create_generic_question ::
  "string list \<Rightarrow> nat \<Rightarrow> rng \<Rightarrow> py_error + (quiz_question \<times> rng)" where
  "create_generic_question concepts idx g =
     (if concepts \<noteq> [] then
        (case choice concepts g of
           Inl e \<Rightarrow> Inl e
         | Inr (concept, g1) \<Rightarrow>
             (let opts = [''It is a central theme'', ''It is mentioned briefly'',
                          ''It is not relevant'', ''It contradicts the main argument'']
              in Inr (\<lparr>question = ''What is the significance of '' @ lower concept
                                     @ '' in the provided material?'',
                        options = opts, correct_answer = ''A'', correct_text = opts ! 0\<rparr>, g1)))
      else
        (let opts = [''The content presents a clear argument'',
                     ''The content lacks supporting evidence'',
                     ''The content is purely descriptive'',
                     ''The content is contradictory'']
         in Inr (\<lparr>question = ''Based on the provided material, which statement is most accurate?'',
                   options = opts, correct_answer = ''A'', correct_text = opts ! 0\<rparr>, g)))"

text \<open>
  generate_quiz_questions. The first loop returns its final state: the accepted
  questions, the number of attempts and the generator.
\<close>

definition sentence_pool :: "string \<Rightarrow> string list" where
  "sentence_pool text = map strip (filter (\<lambda>s. length (strip s) > 20) (re_split text))"

function quiz_loop ::
  "string list \<Rightarrow> string list \<Rightarrow> nat \<Rightarrow> quiz_question list \<Rightarrow> nat \<Rightarrow> rng
     \<Rightarrow> py_error + (quiz_question list \<times> nat \<times> rng)" where
  "quiz_loop sentences concepts max_attempts questions attempts g =
     (if length questions < 3 \<and> attempts < max_attempts then
        (if sentences \<noteq> [] then
           (case choice sentences g of
              Inl e \<Rightarrow> Inl e
            | Inr (sentence, g1) \<Rightarrow>
                (case create_multiple_choice_question sentence concepts g1 of
                   Inl e \<Rightarrow> Inl e
                 | Inr (None, g2) \<Rightarrow>
                     quiz_loop sentences concepts max_attempts questions (attempts + 1) g2
                 | Inr (Some q, g2) \<Rightarrow>
                     (if q \<notin> set questions
                      then quiz_loop sentences concepts max_attempts (questions @ [q]) (attempts + 1) g2
                      else quiz_loop sentences concepts max_attempts questions (attempts + 1) g2)))
         else quiz_loop sentences concepts max_attempts questions (attempts + 1) g)
      else Inr (questions, attempts, g))"
  by pat_completeness auto
termination
  by (relation "measure (\<lambda>(sentences, concepts, max_attempts, questions, attempts, g).
        max_attempts - attempts)") auto

declare quiz_loop.simps [simp del]

function fill_generic ::
  "string list \<Rightarrow> quiz_question list \<Rightarrow> rng \<Rightarrow> py_error + (quiz_question list \<times> rng)" where
  "fill_generic concepts questions g =
     (if length questions < 3 then
        (case create_generic_question concepts (length questions) g of
           Inl e \<Rightarrow> Inl e
         | Inr (generic_q, g1) \<Rightarrow> fill_generic concepts (questions @ [generic_q]) g1)
      else Inr (questions, g))"
  by pat_completeness auto
termination
  by (relation "measure (\<lambda>(concepts, questions, g). 3 - length questions)") auto

declare fill_generic.simps [simp del]

definition generate_quiz_questions ::
  "string \<Rightarrow> string list \<Rightarrow> rng \<Rightarrow> py_error + (quiz_question list \<times> rng)" where
  "generate_quiz_questions text concepts g =
     (let sentences = sentence_pool text;
          max_attempts = length sentences * 2
      in case quiz_loop sentences concepts max_attempts [] 0 g of
           Inl e \<Rightarrow> Inl e
         | Inr (questions, attempts, g1) \<Rightarrow> fill_generic concepts questions g1)"

definition generate_content :: "string \<Rightarrow> rng \<Rightarrow> rng \<Rightarrow> py_error + (generation_result \<times> rng)" where
  "generate_content input_text h g =
     (let text = clean_text input_text;
          concepts = extract_key_concepts h text
      in case generate_assignments text concepts g of
           Inl e \<Rightarrow> Inl e
         | Inr (assignments', g1) \<Rightarrow>
             (case generate_quiz_questions text concepts g1 of
                Inl e \<Rightarrow> Inl e
              | Inr (quiz_questions', g2) \<Rightarrow>
                  Inr (\<lparr>assignments = assignments',
                        quiz_questions = quiz_questions',
                        concepts_found = concepts\<rparr>, g2)))"

subsection \<open>Predicates and values used in the statements\<close>

text \<open>Every whitespace character is a space, and no whitespace follows it.\<close>

fun tidy :: "string \<Rightarrow> bool" where
  "tidy [] = True"
| "tidy (c # cs) =
     ((isspace c \<longrightarrow> c = CHR '' '' \<and> (cs = [] \<or> \<not> isspace (hd cs))) \<and> tidy cs)"

text \<open>
  The position that a letter names, A = 0 to D = 3 (the display code pairs position j with
  chr(65 + j)), and the invariant of a quiz question: four options, a letter from A to D,
  and the correct text at the position the letter names.
\<close>

definition letter_index :: "string \<Rightarrow> nat option" where
  "letter_index l =
     (if l = ''A'' then Some 0 else if l = ''B'' then Some 1
      else if l = ''C'' then Some 2 else if l = ''D'' then Some 3 else None)"

definition question_invariant :: "quiz_question \<Rightarrow> bool" where
  "question_invariant q =
     (length (options q) = 4
      \<and> correct_answer q \<in> set [''A'', ''B'', ''C'', ''D'']
      \<and> (case letter_index (correct_answer q) of
            None \<Rightarrow> False
          | Some i \<Rightarrow> options q ! i = correct_text q))"

text \<open>
  The values of the fallback paths: the question that create_generic_question builds
  without concepts, and the two assignments that generate_assignments gives without
  concepts.
\<close>

definition fallback_question :: quiz_question where
  "fallback_question =
     \<lparr>question = ''Based on the provided material, which statement is most accurate?'',
      options = [''The content presents a clear argument'',
                 ''The content lacks supporting evidence'',
                 ''The content is purely descriptive'',
                 ''The content is contradictory''],
      correct_answer = ''A'',
      correct_text = ''The content presents a clear argument''\<rparr>"

definition fallback_assignments :: "string list" where
  "fallback_assignments =
     [''Analyze the main themes presented in the provided text and discuss their significance with supporting examples.'',
      ''Evaluate the effectiveness of the arguments presented in the text. What evidence supports the main points, and what questions remain unanswered?'']"

text \<open>
  The replacement as the specification words it, to compare with py_replace: only the
  first occurrence of old becomes new (str.replace with the count 1).
\<close>

fun replace_first :: "string \<Rightarrow> string \<Rightarrow> string \<Rightarrow> string" where
  "replace_first [] old new = (if old = [] then new else [])"
| "replace_first (c # cs) old new =
     (if prefix old (c # cs) then new @ drop (length old) (c # cs)
      else c # replace_first cs old new)"

subsection \<open>Properties of the text normalizer\<close>

lemma isspace_space: "isspace CHR '' ''"
  by (simp add: isspace_def)

lemma strip_as_take: "strip s = take (length (strip s)) (dropWhile isspace s)"
proof -
  let ?u = "dropWhile isspace s"
  have "dropWhile isspace (rev ?u) = drop (length (takeWhile isspace (rev ?u))) (rev ?u)"
    by (rule dropWhile_eq_drop)
  then have "strip s = take (length ?u - length (takeWhile isspace (rev ?u))) ?u"
    by (simp add: strip_def rev_drop)
  then show ?thesis
    by (metis append_eq_conv_conj append_take_drop_id)
qed

lemma strip_hd: "strip s \<noteq> [] \<Longrightarrow> \<not> isspace (hd (strip s))"
proof -
  assume ne: "strip s \<noteq> []"
  let ?u = "dropWhile isspace s"
  from ne have "?u \<noteq> []"
    unfolding strip_def by (metis dropWhile.simps(1) rev.simps(1))
  then have "\<not> isspace (hd ?u)"
    by (rule hd_dropWhile)
  moreover from ne have "hd (strip s) = hd ?u"
    by (metis strip_as_take hd_take length_greater_0_conv)
  ultimately show ?thesis by simp
qed

lemma strip_last: "strip s \<noteq> [] \<Longrightarrow> \<not> isspace (last (strip s))"
proof -
  assume ne: "strip s \<noteq> []"
  let ?v = "dropWhile isspace (rev (dropWhile isspace s))"
  from ne have v: "?v \<noteq> []"
    by (simp add: strip_def)
  then have "\<not> isspace (hd ?v)"
    by (rule hd_dropWhile)
  moreover from v have "last (strip s) = hd ?v"
    by (simp add: strip_def last_rev)
  ultimately show ?thesis by simp
qed

lemma sub_ws_Nil_iff: "sub_ws s = [] \<longleftrightarrow> s = []"
  by (cases s) auto

lemma hd_sub_ws: "s \<noteq> [] \<Longrightarrow> \<not> isspace (hd s) \<Longrightarrow> hd (sub_ws s) = hd s"
  by (cases s) auto

lemma tidy_sub_ws: "tidy (sub_ws s)"
proof (induction s rule: sub_ws.induct)
  case 1
  show ?case by simp
next
  case (2 c cs)
  show ?case
  proof (cases "isspace c")
    case True
    let ?r = "dropWhile isspace cs"
    have "?r = [] \<or> \<not> isspace (hd ?r)"
      using hd_dropWhile [of isspace cs] by blast
    then have "sub_ws ?r = [] \<or> \<not> isspace (hd (sub_ws ?r))"
      by (metis hd_sub_ws sub_ws_Nil_iff)
    with True "2.IH"(1) show ?thesis by simp
  next
    case False
    with "2.IH"(2) show ?thesis by simp
  qed
qed

lemma sub_ws_tidy: "tidy s \<Longrightarrow> sub_ws s = s"
proof (induction s)
  case Nil
  show ?case by simp
next
  case (Cons c cs)
  then have ih: "sub_ws cs = cs" by simp
  show ?case
  proof (cases "isspace c")
    case True
    with Cons.prems have c: "c = CHR '' ''" and nxt: "cs = [] \<or> \<not> isspace (hd cs)"
      by auto
    from nxt have "dropWhile isspace cs = cs"
      by (cases cs) auto
    with True c ih show ?thesis by simp
  next
    case False
    with ih show ?thesis by simp
  qed
qed

lemma tidy_no_double:
  "tidy s \<Longrightarrow> Suc i < length s \<Longrightarrow> \<not> (isspace (s ! i) \<and> isspace (s ! Suc i))"
proof (induction s arbitrary: i)
  case Nil
  then show ?case by simp
next
  case (Cons c cs)
  show ?case
  proof (cases i)
    case 0
    with Cons.prems show ?thesis
      by (cases cs) auto
  next
    case (Suc k)
    with Cons show ?thesis by simp
  qed
qed

lemma last_sub_ws: "s \<noteq> [] \<Longrightarrow> \<not> isspace (last s) \<Longrightarrow> last (sub_ws s) = last s"
proof (induction s rule: sub_ws.induct)
  case 1
  then show ?case by simp
next
  case (2 c cs)
  show ?case
  proof (cases "isspace c")
    case True
    with "2.prems" have cs: "cs \<noteq> []" by auto
    with "2.prems" have lst: "\<not> isspace (last cs)" by simp
    let ?r = "dropWhile isspace cs"
    from cs lst have r: "?r \<noteq> []"
      by (metis dropWhile_eq_Nil_conv last_in_set)
    have "cs = takeWhile isspace cs @ ?r" by simp
    with r have lr: "last ?r = last cs"
      by (metis last_appendR)
    from True r lr lst "2.IH"(1) have "last (sub_ws ?r) = last cs" by simp
    moreover have "sub_ws (c # cs) = CHR '' '' # sub_ws ?r"
      using True by simp
    moreover have "sub_ws ?r \<noteq> []"
      using r by (simp only: sub_ws_Nil_iff not_False_eq_True)
    ultimately show ?thesis
      using cs by (metis last_ConsR)
  next
    case False
    show ?thesis
    proof (cases "cs = []")
      case True
      with False show ?thesis by simp
    next
      case ne: False
      with False "2.prems" "2.IH"(2) show ?thesis by (simp add: sub_ws_Nil_iff)
    qed
  qed
qed

lemma strip_id: "s = [] \<or> (\<not> isspace (hd s) \<and> \<not> isspace (last s)) \<Longrightarrow> strip s = s"
proof (cases "s = []")
  case True
  then show ?thesis by (simp add: strip_def)
next
  case False
  assume "s = [] \<or> (\<not> isspace (hd s) \<and> \<not> isspace (last s))"
  with False have h: "\<not> isspace (hd s)" and l: "\<not> isspace (last s)" by auto
  from False h have 1: "dropWhile isspace s = s" by (cases s) auto
  from False l have "dropWhile isspace (rev s) = rev s"
    by (cases "rev s") (auto simp: last_rev [symmetric] hd_rev)
  with 1 show ?thesis by (simp add: strip_def)
qed

lemma clean_text_ends:
  "clean_text t = [] \<or> (\<not> isspace (hd (clean_text t)) \<and> \<not> isspace (last (clean_text t)))"
proof (cases "strip t = []")
  case True
  then show ?thesis by (simp add: clean_text_def)
next
  case False
  then show ?thesis
    using strip_hd [of t] strip_last [of t]
    by (simp add: clean_text_def hd_sub_ws last_sub_ws)
qed

text \<open>
  C7: for every input, the output of clean_text has no two consecutive whitespace
  characters and no whitespace at its start or at its end, and clean_text is idempotent:
  applied to one of its outputs it returns that output unchanged. The empty input gives
  the empty output.
\<close>

theorem clean_text_normalized:
  "(\<forall>i. Suc i < length (clean_text t)
        \<longrightarrow> \<not> (isspace (clean_text t ! i) \<and> isspace (clean_text t ! Suc i)))
   \<and> (clean_text t = [] \<or> (\<not> isspace (hd (clean_text t)) \<and> \<not> isspace (last (clean_text t))))
   \<and> clean_text (clean_text t) = clean_text t
   \<and> clean_text [] = []"
proof -
  have tidy: "tidy (clean_text t)"
    by (simp add: clean_text_def tidy_sub_ws)
  have "strip (clean_text t) = clean_text t"
    by (rule strip_id) (rule clean_text_ends)
  then have "clean_text (clean_text t) = sub_ws (clean_text t)"
    by (simp add: clean_text_def)
  also have "\<dots> = clean_text t"
    using tidy by (rule sub_ws_tidy)
  finally have idem: "clean_text (clean_text t) = clean_text t" .
  have "clean_text [] = []" by (simp add: clean_text_def strip_def)
  with tidy idem clean_text_ends [of t] show ?thesis
    using tidy_no_double [of "clean_text t"] by blast
qed

theorem clean_text_normalized_witness:
  "Suc 0 < length (clean_text [CHR '' '', CHR ''a'', CHR 0x09, CHR 0x0A, CHR ''b'', CHR '' ''])
   \<and> \<not> (isspace (clean_text [CHR '' '', CHR ''a'', CHR 0x09, CHR 0x0A, CHR ''b'', CHR '' ''] ! 0)
        \<and> isspace (clean_text [CHR '' '', CHR ''a'', CHR 0x09, CHR 0x0A, CHR ''b'', CHR '' ''] ! Suc 0))
   \<and> clean_text [CHR '' '', CHR ''a'', CHR 0x09, CHR 0x0A, CHR ''b'', CHR '' ''] = ''a b''"
  using clean_text_normalized [of "[CHR '' '', CHR ''a'', CHR 0x09, CHR 0x0A, CHR ''b'', CHR '' '']"]
  by (simp add: clean_text_def strip_def isspace_def)

subsection \<open>The random module keeps the elements\<close>

lemmas py_eval =
  lower_def lower_char_def isupper_def isspace_def is_ascii_letter_def is_word_char_def
  is_sentence_end_def char_of_eq_iff

lemma randbelow_less: "0 < n \<Longrightarrow> fst (randbelow n g) < n"
  by (cases g) (simp_all add: randbelow_def)

lemma shuffle_from_set_length:
  "i < length x \<Longrightarrow>
     set (fst (shuffle_from i x g)) = set x \<and> length (fst (shuffle_from i x g)) = length x"
proof (induction i arbitrary: x g)
  case 0
  show ?case by simp
next
  case (Suc i)
  obtain j g' where r: "randbelow (Suc i + 1) g = (j, g')"
    by (cases "randbelow (Suc i + 1) g")
  have "fst (randbelow (Suc i + 1) g) < Suc i + 1"
    by (rule randbelow_less) simp
  with r Suc.prems have j: "j < length x" by simp
  let ?y = "x[Suc i := x ! j, j := x ! Suc i]"
  from Suc.prems j have "set ?y = set x"
    by simp
  moreover have "length ?y = length x" by simp
  moreover from Suc.prems have "i < length ?y" by simp
  ultimately show ?case
    using Suc.IH [of ?y g'] r by simp
qed

lemma shuffle_set: "set (fst (shuffle x g)) = set x"
proof (cases "x = []")
  case True
  then show ?thesis by (simp add: shuffle_def)
next
  case False
  then have "length x - 1 < length x" by simp
  then show ?thesis
    unfolding shuffle_def by (simp add: shuffle_from_set_length)
qed

lemma shuffle_length: "length (fst (shuffle x g)) = length x"
proof (cases "x = []")
  case True
  then show ?thesis by (simp add: shuffle_def)
next
  case False
  then have "length x - 1 < length x" by simp
  then show ?thesis
    unfolding shuffle_def by (simp add: shuffle_from_set_length)
qed

subsection \<open>The distractor generator\<close>

lemma generate_distractors_length: "length (generate_distractors answer concepts) = 3"
  by (simp add: generate_distractors_def Let_def)

text \<open>
  C5: generate_distractors returns exactly 3 strings for every answer and every list of
  concepts: first the (at most 2) earliest concepts whose lowercase form differs from the
  lowercase answer, in the order of the list, then the generic entries that fill the
  rest. For the answer Elephant and the concepts Elephant, Savanna, Migration the result
  is Savanna, Migration and one generic entry.
\<close>

theorem generate_distractors_three:
  "length (generate_distractors answer concepts) = 3
   \<and> take (min 2 (length (filter (\<lambda>c. lower c \<noteq> lower answer) concepts)))
        (generate_distractors answer concepts)
      = take 2 (filter (\<lambda>c. lower c \<noteq> lower answer) concepts)
   \<and> drop (min 2 (length (filter (\<lambda>c. lower c \<noteq> lower answer) concepts)))
        (generate_distractors answer concepts)
      = take (3 - min 2 (length (filter (\<lambda>c. lower c \<noteq> lower answer) concepts)))
          [''Not '' @ lower answer, ''Opposite of '' @ lower answer, ''None of the above'']
   \<and> generate_distractors ''Elephant'' [''Elephant'', ''Savanna'', ''Migration'']
      = [''Savanna'', ''Migration'', ''Not elephant'']"
proof -
  let ?oc = "filter (\<lambda>c. lower c \<noteq> lower answer) concepts"
  let ?gen = "[''Not '' @ lower answer, ''Opposite of '' @ lower answer, ''None of the above'']"
  have d: "generate_distractors answer concepts = take 3 (take 2 ?oc @ ?gen)"
    by (simp add: generate_distractors_def Let_def)
  have 1: "length (generate_distractors answer concepts) = 3"
    by (rule generate_distractors_length)
  have 2: "take (min 2 (length ?oc)) (generate_distractors answer concepts) = take 2 ?oc"
    unfolding d by (simp add: min_def)
  have 3: "drop (min 2 (length ?oc)) (generate_distractors answer concepts)
           = take (3 - min 2 (length ?oc)) ?gen"
    unfolding d by (simp add: drop_take min_def)
  have 4: "generate_distractors ''Elephant'' [''Elephant'', ''Savanna'', ''Migration'']
      = [''Savanna'', ''Migration'', ''Not elephant'']"
    by (simp add: generate_distractors_def Let_def py_eval)
  from 1 2 3 4 show ?thesis by blast
qed

subsection \<open>The concept extractor\<close>

lemma word_step_concepts:
  "\<forall>c \<in> set (fst st). 3 < length c \<Longrightarrow> \<forall>c \<in> set (fst (word_step word st)). 3 < length c"
  by (cases st) (auto simp: word_step_def Let_def)

lemma fold_word_step_concepts:
  "\<forall>c \<in> set (fst st). 3 < length c \<Longrightarrow> \<forall>c \<in> set (fst (fold word_step ws st)). 3 < length c"
proof (induction ws arbitrary: st)
  case Nil
  then show ?case by simp
next
  case (Cons w ws)
  from Cons.prems have "\<forall>c \<in> set (fst (word_step w st)). 3 < length c"
    by (rule word_step_concepts)
  then show ?case
    using Cons.IH [of "word_step w st"] by simp
qed

lemma fold_sentences_concepts:
  "\<forall>c \<in> set (fst st). 3 < length c \<Longrightarrow>
     \<forall>c \<in> set (fst (fold (\<lambda>sentence st. fold word_step (re_findall sentence) st) ss st)).
       3 < length c"
proof (induction ss arbitrary: st)
  case Nil
  then show ?case by simp
next
  case (Cons s ss)
  from Cons.prems have "\<forall>c \<in> set (fst (fold word_step (re_findall s) st)). 3 < length c"
    by (rule fold_word_step_concepts)
  then show ?case
    using Cons.IH [of "fold word_step (re_findall s) st"] by simp
qed

lemma list_of_set_set: "set (list_of_set h xs) = set xs"
  by (simp add: list_of_set_def shuffle_set)

lemma extract_key_concepts_Nil: "extract_key_concepts h [] = []"
  by (simp add: extract_key_concepts_def re_split.simps re_findall_def list_of_set_def
      shuffle_def)

text \<open>
  C6: for every input string (and every order of the set), extract_key_concepts returns
  at most 10 concepts, every returned concept is longer than 3 characters, and the empty
  input gives the empty list.
\<close>

theorem extract_key_concepts_bounds:
  "length (extract_key_concepts h text) \<le> 10
   \<and> (\<forall>c \<in> set (extract_key_concepts h text). 3 < length c)
   \<and> extract_key_concepts h [] = []"
proof -
  obtain concepts word_freq where
    f: "fold (\<lambda>sentence st. fold word_step (re_findall sentence) st) (re_split text) ([], [])
        = (concepts, word_freq)"
    by (cases "fold (\<lambda>sentence st. fold word_step (re_findall sentence) st) (re_split text) ([], [])")
  let ?fw = "map fst (filter (\<lambda>(word, freq). freq > 1 \<and> length word > 4) word_freq)"
  have e: "extract_key_concepts h text = take 10 (list_of_set h (concepts @ take 5 ?fw))"
    by (simp add: extract_key_concepts_def f)
  have c: "\<forall>c \<in> set concepts. 3 < length c"
    using fold_sentences_concepts [of "([], [])" "re_split text"] f by simp
  have w: "\<forall>c \<in> set ?fw. 3 < length c"
    by auto
  have "\<forall>c \<in> set (concepts @ take 5 ?fw). 3 < length c"
  proof
    fix x assume "x \<in> set (concepts @ take 5 ?fw)"
    then have "x \<in> set concepts \<or> x \<in> set ?fw"
      by (auto dest: in_set_takeD)
    with c w show "3 < length x" by blast
  qed
  then have "\<forall>c \<in> set (list_of_set h (concepts @ take 5 ?fw)). 3 < length c"
    by (simp only: list_of_set_set)
  then have "\<forall>c \<in> set (extract_key_concepts h text). 3 < length c"
    unfolding e by (blast dest: in_set_takeD)
  moreover have "length (extract_key_concepts h text) \<le> 10"
    unfolding e by simp
  ultimately show ?thesis
    using extract_key_concepts_Nil by blast
qed

theorem extract_key_concepts_bounds_witness:
  "extract_key_concepts [] ''Plants grow'' = [''Plants'']
   \<and> ''Plants'' \<in> set (extract_key_concepts [] ''Plants grow'')
   \<and> 3 < length ''Plants''"
  using extract_key_concepts_bounds [of "[]" "''Plants grow''"]
  by (simp add: extract_key_concepts_def re_split.simps re_findall_def list_of_set_def
      shuffle_def word_step_def Let_def py_eval)

subsection \<open>The per-sentence question builder\<close>

lemma choice_Inr:
  "seq \<noteq> [] \<Longrightarrow> \<exists>x g'. choice seq g = Inr (x, g') \<and> x \<in> set seq"
proof -
  assume ne: "seq \<noteq> []"
  obtain i g' where r: "randbelow (length seq) g = (i, g')"
    by (cases "randbelow (length seq) g")
  from ne have "fst (randbelow (length seq) g) < length seq"
    by (simp add: randbelow_less)
  with r have "i < length seq" by simp
  with ne r show ?thesis
    by (simp add: choice_def)
qed

lemma index_Inr:
  "x \<in> set xs \<Longrightarrow> \<exists>i. index xs x = Inr i \<and> i < length xs \<and> xs ! i = x"
  by (induction xs) auto

lemma str_in_sublist: "str_in old s = sublist old s"
  by (induction s) (simp_all add: sublist_Cons_right)

lemma py_replace_marker:
  "old = [] \<or> sublist old s \<Longrightarrow> sublist new (py_replace s old new)"
proof (induction s old new rule: py_replace.induct)
  case (1 s old new)
  show ?case
  proof (cases "old = []")
    case True
    then have "py_replace s old new = new @ concat (map (\<lambda>c. c # new) s)"
      by (simp add: py_replace.simps)
    then show ?thesis by simp
  next
    case ne: False
    with "1.prems" have sub: "sublist old s" by simp
    with ne have s: "s \<noteq> []" by auto
    show ?thesis
    proof (cases "prefix old s")
      case True
      with ne s have "py_replace s old new = new @ py_replace (drop (length old) s) old new"
        by (subst py_replace.simps) simp
      then show ?thesis by simp
    next
      case False
      with ne s have eq: "py_replace s old new = hd s # py_replace (tl s) old new"
        by (subst py_replace.simps) simp
      from s obtain c cs where scs: "s = c # cs" by (cases s) auto
      with sub False have "sublist old cs"
        by (simp add: sublist_Cons_right)
      with ne s False scs "1.IH"(2) have "sublist new (py_replace (tl s) old new)"
        by simp
      with eq show ?thesis
        by (simp add: sublist_Cons_right)
    qed
  qed
qed

lemma split_ws_sublist: "word \<in> set (split_ws s) \<Longrightarrow> sublist word s"
proof (induction s rule: split_ws.induct)
  case 1
  then show ?case by simp
next
  case (2 c cs)
  show ?case
  proof (cases "isspace c")
    case True
    with 2 show ?thesis
      by (simp add: sublist_Cons_right)
  next
    case False
    let ?t = "takeWhile (\<lambda>d. \<not> isspace d) cs"
    let ?r = "dropWhile (\<lambda>d. \<not> isspace d) cs"
    from False "2.prems" consider "word = c # ?t" | "word \<in> set (split_ws ?r)"
      by auto
    then show ?thesis
    proof cases
      case 1
      have "prefix ?t cs"
        by (metis prefixI takeWhile_dropWhile_id)
      with 1 show ?thesis
        by (simp add: sublist_Cons_right)
    next
      case 2
      with False "2.IH"(2) have "sublist word ?r" by simp
      moreover have "suffix ?r cs"
        by (rule suffix_dropWhile)
      ultimately have "sublist word cs"
        by (meson sublist_order.order_trans suffix_imp_sublist)
      then show ?thesis
        by (simp add: sublist_Cons_right)
    qed
  qed
qed

lemma strip_chars_sublist: "sublist (strip_chars chars w) w"
proof -
  let ?P = "\<lambda>c. c \<in> set chars"
  let ?u = "dropWhile ?P w"
  have "suffix (dropWhile ?P (rev ?u)) (rev ?u)"
    by (rule suffix_dropWhile)
  then have "prefix (rev (dropWhile ?P (rev ?u))) ?u"
    by (simp add: suffix_to_prefix)
  then have "sublist (strip_chars chars w) ?u"
    by (simp add: strip_chars_def)
  moreover have "sublist ?u w"
    by (simp add: suffix_dropWhile)
  ultimately show ?thesis
    by (rule sublist_order.order_trans)
qed

lemma candidate_sublist:
  "word \<in> set (answer_candidates (split_ws s)) \<Longrightarrow> sublist (strip_chars chars word) s"
proof -
  assume "word \<in> set (answer_candidates (split_ws s))"
  then have "word \<in> set (split_ws s)"
    by (simp add: answer_candidates_def)
  then have "sublist word s"
    by (rule split_ws_sublist)
  with strip_chars_sublist [of chars word] show ?thesis
    by (rule sublist_order.order_trans)
qed

lemma question_text_of_replace:
  "sublist answer sentence \<Longrightarrow>
     question_text_of sentence answer g = Inr (py_replace sentence answer blank_marker, g)"
  by (simp add: question_text_of_def Let_def str_in_sublist py_replace_marker)

lemma create_multiple_choice_question_None:
  "strip sentence = [] \<or> answer_candidates (split_ws (strip sentence)) = [] \<Longrightarrow>
     create_multiple_choice_question sentence concepts g = Inr (None, g)"
  unfolding create_multiple_choice_question_def Let_def by (erule disjE) simp_all

lemma create_multiple_choice_question_Some:
  assumes s: "strip sentence \<noteq> []"
    and c: "answer_candidates (split_ws (strip sentence)) \<noteq> []"
    and ch: "choice (answer_candidates (split_ws (strip sentence))) g = Inr (word, g1)"
    and qt: "question_text_of (strip sentence) (strip_chars ''.,!?'' word) g1 = Inr (qtext, g2)"
    and sh: "shuffle (strip_chars ''.,!?'' word
                      # generate_distractors (strip_chars ''.,!?'' word) concepts) g2 = (opts, g3)"
    and ix: "index opts (strip_chars ''.,!?'' word) = Inr i"
  shows "create_multiple_choice_question sentence concepts g =
           Inr (Some \<lparr>question = qtext, options = opts,
                      correct_answer = [char_of (65 + i)],
                      correct_text = strip_chars ''.,!?'' word\<rparr>, g3)"
  unfolding create_multiple_choice_question_def Let_def
  by (simp only: s c ch qt sh ix if_False sum.case prod.case)


lemma letter_of_index:
  "i < 4 \<Longrightarrow> [char_of (65 + i)] \<in> set [''A'', ''B'', ''C'', ''D'']
     \<and> letter_index [char_of (65 + i)] = Some i"
proof -
  assume "i < 4"
  then consider "i = 0" | "i = 1" | "i = 2" | "i = 3" by linarith
  then show ?thesis
    by cases (simp_all add: letter_index_def char_of_eq_iff)
qed

lemma create_multiple_choice_question_built:
  assumes s: "strip sentence \<noteq> []"
    and c: "answer_candidates (split_ws (strip sentence)) \<noteq> []"
  shows "\<exists>word opts i g'.
         word \<in> set (answer_candidates (split_ws (strip sentence)))
         \<and> length opts = 4 \<and> i < 4 \<and> opts ! i = strip_chars ''.,!?'' word
         \<and> set opts = set (strip_chars ''.,!?'' word
                              # generate_distractors (strip_chars ''.,!?'' word) concepts)
         \<and> create_multiple_choice_question sentence concepts g =
             Inr (Some \<lparr>question = py_replace (strip sentence) (strip_chars ''.,!?'' word) blank_marker,
                        options = opts,
                        correct_answer = [char_of (65 + i)],
                        correct_text = strip_chars ''.,!?'' word\<rparr>, g')"
proof -
  let ?s = "strip sentence"
  let ?cands = "answer_candidates (split_ws ?s)"
  from c obtain word g1 where ch: "choice ?cands g = Inr (word, g1)" and w: "word \<in> set ?cands"
    using choice_Inr by blast
  let ?a = "strip_chars ''.,!?'' word"
  let ?xs = "?a # generate_distractors ?a concepts"
  from w have "sublist ?a ?s"
    by (rule candidate_sublist)
  then have qt: "question_text_of ?s ?a g1 = Inr (py_replace ?s ?a blank_marker, g1)"
    by (rule question_text_of_replace)
  obtain opts g3 where sh: "shuffle ?xs g1 = (opts, g3)"
    by (cases "shuffle ?xs g1")
  then have fo: "fst (shuffle ?xs g1) = opts"
    by (simp only: fst_conv)
  have so: "set opts = set ?xs"
    using shuffle_set [of ?xs g1] by (simp only: fo)
  have "length opts = length ?xs"
    using shuffle_length [of ?xs g1] by (simp only: fo)
  then have lo: "length opts = 4"
    by (simp add: generate_distractors_length)
  have "?a \<in> set ?xs" by (rule list.set_intros(1))
  with so have "?a \<in> set opts" by (simp only:)
  then have "\<exists>i. index opts ?a = Inr i \<and> i < length opts \<and> opts ! i = ?a"
    by (rule index_Inr)
  then obtain i where ix: "index opts ?a = Inr i" and il: "i < length opts" and ie: "opts ! i = ?a"
    by (elim exE conjE)
  from il lo have i4: "i < 4" by (simp only:)
  have eq: "create_multiple_choice_question sentence concepts g =
          Inr (Some \<lparr>question = py_replace ?s ?a blank_marker, options = opts,
                     correct_answer = [char_of (65 + i)], correct_text = ?a\<rparr>, g3)"
    using s c ch qt sh ix by (rule create_multiple_choice_question_Some)
  show ?thesis
    apply (rule exI [where x = word])
    apply (rule exI [where x = opts])
    apply (rule exI [where x = i])
    apply (rule exI [where x = g3])
    apply (intro conjI)
         apply (rule w)
        apply (rule lo)
       apply (rule i4)
      apply (rule ie)
     apply (rule so)
    apply (rule eq)
    done
qed

lemma create_multiple_choice_question_result:
  "create_multiple_choice_question sentence concepts g = Inr (None, g)
   \<or> (\<exists>word opts i g'.
         word \<in> set (answer_candidates (split_ws (strip sentence)))
         \<and> length opts = 4 \<and> i < 4 \<and> opts ! i = strip_chars ''.,!?'' word
         \<and> set opts = set (strip_chars ''.,!?'' word
                              # generate_distractors (strip_chars ''.,!?'' word) concepts)
         \<and> create_multiple_choice_question sentence concepts g =
             Inr (Some \<lparr>question = py_replace (strip sentence) (strip_chars ''.,!?'' word) blank_marker,
                        options = opts,
                        correct_answer = [char_of (65 + i)],
                        correct_text = strip_chars ''.,!?'' word\<rparr>, g'))"
proof (cases "strip sentence = [] \<or> answer_candidates (split_ws (strip sentence)) = []")
  case True
  then have "create_multiple_choice_question sentence concepts g = Inr (None, g)"
    by (rule create_multiple_choice_question_None)
  then show ?thesis by (rule disjI1)
next
  case False
  then have "strip sentence \<noteq> []"
    and "answer_candidates (split_ws (strip sentence)) \<noteq> []"
    by blast+
  then show ?thesis
    by (intro disjI2 create_multiple_choice_question_built)
qed

lemma create_multiple_choice_question_total:
  "\<exists>r g'. create_multiple_choice_question sentence concepts g = Inr (r, g')"
  using create_multiple_choice_question_result [of sentence concepts g]
  by (elim disjE exE conjE) (rule exI, rule exI, assumption)+

lemma create_multiple_choice_question_invariant:
  assumes r: "create_multiple_choice_question sentence concepts g = Inr (Some q, g')"
  shows "question_invariant q"
proof -
  from create_multiple_choice_question_result [of sentence concepts g]
  show ?thesis
  proof (elim disjE exE conjE)
    assume "create_multiple_choice_question sentence concepts g = Inr (None, g)"
    with r show ?thesis by simp
  next
    fix word opts i g2
    assume l: "length opts = 4" and i: "i < 4" and e: "opts ! i = strip_chars ''.,!?'' word"
      and eq: "create_multiple_choice_question sentence concepts g =
         Inr (Some \<lparr>question = py_replace (strip sentence) (strip_chars ''.,!?'' word) blank_marker,
                    options = opts, correct_answer = [char_of (65 + i)],
                    correct_text = strip_chars ''.,!?'' word\<rparr>, g2)"
    from r eq have q: "q = \<lparr>question = py_replace (strip sentence) (strip_chars ''.,!?'' word) blank_marker,
                    options = opts, correct_answer = [char_of (65 + i)],
                    correct_text = strip_chars ''.,!?'' word\<rparr>"
      by simp
    from letter_of_index [OF i] have m: "[char_of (65 + i)] \<in> set [''A'', ''B'', ''C'', ''D'']"
      and li: "letter_index [char_of (65 + i)] = Some i"
      by (rule conjunct1, rule conjunct2)
    show ?thesis
      unfolding question_invariant_def q
      by (simp only: quiz_question.simps l m li option.case e simp_thms)
  qed
qed

subsection \<open>The generic question and the loops of generate_quiz_questions\<close>

lemma create_generic_question_result:
  "\<exists>q g'. create_generic_question concepts idx g = Inr (q, g') \<and> question_invariant q
     \<and> correct_answer q = ''A''"
proof (cases "concepts = []")
  case True
  then show ?thesis
    by (simp add: create_generic_question_def Let_def question_invariant_def letter_index_def)
next
  case False
  then have "\<exists>x g'. choice concepts g = Inr (x, g') \<and> x \<in> set concepts"
    by (rule choice_Inr)
  then obtain concept g1 where "choice concepts g = Inr (concept, g1)"
    by (elim exE conjE)
  with False show ?thesis
    by (simp add: create_generic_question_def Let_def question_invariant_def letter_index_def)
qed

lemma create_generic_question_empty:
  "create_generic_question [] idx g =
     Inr (\<lparr>question = ''Based on the provided material, which statement is most accurate?'',
            options = [''The content presents a clear argument'',
                       ''The content lacks supporting evidence'',
                       ''The content is purely descriptive'',
                       ''The content is contradictory''],
            correct_answer = ''A'',
            correct_text = ''The content presents a clear argument''\<rparr>, g)"
  by (simp add: create_generic_question_def Let_def)

lemma quiz_loop_stop:
  "\<not> (length questions < 3 \<and> attempts < max_attempts) \<Longrightarrow>
     quiz_loop sentences concepts max_attempts questions attempts g = Inr (questions, attempts, g)"
  by (subst quiz_loop.simps) (simp only: if_False)

lemma quiz_loop_empty:
  "length questions < 3 \<Longrightarrow> attempts < max_attempts \<Longrightarrow>
     quiz_loop [] concepts max_attempts questions attempts g
       = quiz_loop [] concepts max_attempts questions (attempts + 1) g"
  by (subst quiz_loop.simps) simp

lemma quiz_loop_None:
  "length questions < 3 \<Longrightarrow> attempts < max_attempts \<Longrightarrow> sentences \<noteq> [] \<Longrightarrow>
   choice sentences g = Inr (sentence, g1) \<Longrightarrow>
   create_multiple_choice_question sentence concepts g1 = Inr (None, g2) \<Longrightarrow>
     quiz_loop sentences concepts max_attempts questions attempts g
       = quiz_loop sentences concepts max_attempts questions (attempts + 1) g2"
  by (subst quiz_loop.simps) simp

lemma quiz_loop_new:
  "length questions < 3 \<Longrightarrow> attempts < max_attempts \<Longrightarrow> sentences \<noteq> [] \<Longrightarrow>
   choice sentences g = Inr (sentence, g1) \<Longrightarrow>
   create_multiple_choice_question sentence concepts g1 = Inr (Some q, g2) \<Longrightarrow>
   q \<notin> set questions \<Longrightarrow>
     quiz_loop sentences concepts max_attempts questions attempts g
       = quiz_loop sentences concepts max_attempts (questions @ [q]) (attempts + 1) g2"
  by (subst quiz_loop.simps) simp

lemma quiz_loop_dup:
  "length questions < 3 \<Longrightarrow> attempts < max_attempts \<Longrightarrow> sentences \<noteq> [] \<Longrightarrow>
   choice sentences g = Inr (sentence, g1) \<Longrightarrow>
   create_multiple_choice_question sentence concepts g1 = Inr (Some q, g2) \<Longrightarrow>
   q \<in> set questions \<Longrightarrow>
     quiz_loop sentences concepts max_attempts questions attempts g
       = quiz_loop sentences concepts max_attempts questions (attempts + 1) g2"
  by (subst quiz_loop.simps) simp

lemma quiz_loop_result:
  "\<forall>q \<in> set questions. question_invariant q \<Longrightarrow>
   \<exists>qs n g'. quiz_loop sentences concepts max_attempts questions attempts g = Inr (qs, n, g')
      \<and> attempts \<le> n \<and> n \<le> max attempts max_attempts
      \<and> length qs \<le> max 3 (length questions)
      \<and> (\<forall>q \<in> set qs. question_invariant q)"
proof (induction "max_attempts - attempts" arbitrary: questions attempts g)
  case 0
  then have "\<not> (length questions < 3 \<and> attempts < max_attempts)" by simp
  then have "quiz_loop sentences concepts max_attempts questions attempts g
      = Inr (questions, attempts, g)"
    by (rule quiz_loop_stop)
  with "0.prems" show ?case by simp
next
  case (Suc k)
  show ?case
  proof (cases "length questions < 3 \<and> attempts < max_attempts")
    case False
    then have "quiz_loop sentences concepts max_attempts questions attempts g
        = Inr (questions, attempts, g)"
      by (rule quiz_loop_stop)
    with Suc.prems show ?thesis by simp
  next
    case True
    then have l: "length questions < 3" and a: "attempts < max_attempts" by simp_all
    from Suc.hyps(2) have k: "k = max_attempts - (attempts + 1)" by simp
    have step: "\<exists>qs' g2. (\<forall>q \<in> set qs'. question_invariant q) \<and> length qs' \<le> 3
        \<and> quiz_loop sentences concepts max_attempts questions attempts g
          = quiz_loop sentences concepts max_attempts qs' (attempts + 1) g2"
    proof (cases "sentences = []")
      case True
      from l a have "quiz_loop [] concepts max_attempts questions attempts g
          = quiz_loop [] concepts max_attempts questions (attempts + 1) g"
        by (rule quiz_loop_empty)
      with True Suc.prems l show ?thesis by auto
    next
      case ne: False
      then have "\<exists>x g'. choice sentences g = Inr (x, g') \<and> x \<in> set sentences"
        by (rule choice_Inr)
      then obtain sentence g1 where ch: "choice sentences g = Inr (sentence, g1)"
        by (elim exE conjE)
      obtain r g2 where b: "create_multiple_choice_question sentence concepts g1 = Inr (r, g2)"
        using create_multiple_choice_question_total [of sentence concepts g1] by (elim exE)
      show ?thesis
      proof (cases r)
        case None
        with b have "create_multiple_choice_question sentence concepts g1 = Inr (None, g2)"
          by simp
        with l a ne ch have "quiz_loop sentences concepts max_attempts questions attempts g
            = quiz_loop sentences concepts max_attempts questions (attempts + 1) g2"
          by (rule quiz_loop_None)
        with Suc.prems l show ?thesis by auto
      next
        case (Some q)
        with b have bq: "create_multiple_choice_question sentence concepts g1 = Inr (Some q, g2)"
          by simp
        then have iq: "question_invariant q"
          by (rule create_multiple_choice_question_invariant)
        show ?thesis
        proof (cases "q \<in> set questions")
          case True
          with l a ne ch bq have "quiz_loop sentences concepts max_attempts questions attempts g
              = quiz_loop sentences concepts max_attempts questions (attempts + 1) g2"
            by (rule quiz_loop_dup)
          with Suc.prems l show ?thesis by auto
        next
          case False
          with l a ne ch bq have "quiz_loop sentences concepts max_attempts questions attempts g
              = quiz_loop sentences concepts max_attempts (questions @ [q]) (attempts + 1) g2"
            by (rule quiz_loop_new)
          moreover from Suc.prems iq have "\<forall>x \<in> set (questions @ [q]). question_invariant x"
            by simp
          moreover from l have "length (questions @ [q]) \<le> 3" by simp
          ultimately show ?thesis by blast
        qed
      qed
    qed
    then obtain qs' g2 where inv: "\<forall>q \<in> set qs'. question_invariant q" and l': "length qs' \<le> 3"
      and eq: "quiz_loop sentences concepts max_attempts questions attempts g
          = quiz_loop sentences concepts max_attempts qs' (attempts + 1) g2"
      by (elim exE conjE)
    from Suc.hyps(1) [OF k inv, of g2]
    obtain qs n g' where
      r: "quiz_loop sentences concepts max_attempts qs' (attempts + 1) g2 = Inr (qs, n, g')"
      and n1: "attempts + 1 \<le> n" and n2: "n \<le> max (attempts + 1) max_attempts"
      and lq: "length qs \<le> max 3 (length qs')" and iq: "\<forall>q \<in> set qs. question_invariant q"
      by (elim exE conjE)
    from n1 have "attempts \<le> n" by simp
    moreover from n2 a have "n \<le> max attempts max_attempts" by simp
    moreover from lq l' have "length qs \<le> max 3 (length questions)" by simp
    moreover from eq r have "quiz_loop sentences concepts max_attempts questions attempts g
        = Inr (qs, n, g')" by simp
    ultimately show ?thesis using iq by blast
  qed
qed

lemma fill_generic_stop:
  "\<not> length questions < 3 \<Longrightarrow> fill_generic concepts questions g = Inr (questions, g)"
  by (subst fill_generic.simps) (simp only: if_False)

lemma fill_generic_step:
  "length questions < 3 \<Longrightarrow>
   create_generic_question concepts (length questions) g = Inr (q, g1) \<Longrightarrow>
     fill_generic concepts questions g = fill_generic concepts (questions @ [q]) g1"
  by (subst fill_generic.simps) simp

lemma fill_generic_result:
  "length questions \<le> 3 \<Longrightarrow>
   \<exists>gens g'. fill_generic concepts questions g = Inr (questions @ gens, g')
      \<and> length (questions @ gens) = 3
      \<and> (\<forall>q \<in> set gens. question_invariant q \<and> correct_answer q = ''A''
            \<and> (\<exists>i ga gb. create_generic_question concepts i ga = Inr (q, gb)))"
proof (induction "3 - length questions" arbitrary: questions g)
  case 0
  then have l: "length questions = 3" by simp
  then have "fill_generic concepts questions g = Inr (questions, g)"
    by (simp add: fill_generic_stop)
  with l have "fill_generic concepts questions g = Inr (questions @ [], g)
      \<and> length (questions @ []) = 3
      \<and> (\<forall>q \<in> set []. question_invariant q \<and> correct_answer q = ''A''
            \<and> (\<exists>i ga gb. create_generic_question concepts i ga = Inr (q, gb)))"
    by simp
  then show ?case by (intro exI)
next
  case (Suc k)
  then have l: "length questions < 3" by simp
  obtain q g1 where c: "create_generic_question concepts (length questions) g = Inr (q, g1)"
    and iq: "question_invariant q" and aq: "correct_answer q = ''A''"
    using create_generic_question_result [of concepts "length questions" g]
    by (elim exE conjE)
  from l c have eq: "fill_generic concepts questions g = fill_generic concepts (questions @ [q]) g1"
    by (rule fill_generic_step)
  from Suc.hyps(2) have k: "k = 3 - length (questions @ [q])" by simp
  from l have l': "length (questions @ [q]) \<le> 3" by simp
  from Suc.hyps(1) [OF k l', of g1]
  obtain gens g' where
    r: "fill_generic concepts (questions @ [q]) g1 = Inr ((questions @ [q]) @ gens, g')"
    and n: "length ((questions @ [q]) @ gens) = 3"
    and gq: "\<forall>x \<in> set gens. question_invariant x \<and> correct_answer x = ''A''
            \<and> (\<exists>i ga gb. create_generic_question concepts i ga = Inr (x, gb))"
    by (elim exE conjE)
  from c have "\<exists>i ga gb. create_generic_question concepts i ga = Inr (q, gb)"
    by (intro exI)
  with iq aq gq have g2: "\<forall>x \<in> set (q # gens). question_invariant x \<and> correct_answer x = ''A''
            \<and> (\<exists>i ga gb. create_generic_question concepts i ga = Inr (x, gb))"
    by (simp only: list.set ball_simps simp_thms)
  from eq r have "fill_generic concepts questions g = Inr (questions @ (q # gens), g')"
    by simp
  moreover from n have "length (questions @ (q # gens)) = 3" by simp
  ultimately have "fill_generic concepts questions g = Inr (questions @ (q # gens), g')
      \<and> length (questions @ (q # gens)) = 3
      \<and> (\<forall>x \<in> set (q # gens). question_invariant x \<and> correct_answer x = ''A''
            \<and> (\<exists>i ga gb. create_generic_question concepts i ga = Inr (x, gb)))"
    using g2 by (intro conjI)
  then show ?case by (intro exI)
qed

lemma generate_quiz_questions_result:
  "\<exists>questions attempts g1 gens g2.
     quiz_loop (sentence_pool text) concepts (length (sentence_pool text) * 2) [] 0 g
       = Inr (questions, attempts, g1)
     \<and> attempts \<le> 2 * length (sentence_pool text)
     \<and> generate_quiz_questions text concepts g = Inr (questions @ gens, g2)
     \<and> length (questions @ gens) = 3
     \<and> (\<forall>q \<in> set questions. question_invariant q)
     \<and> (\<forall>q \<in> set gens. question_invariant q \<and> correct_answer q = ''A''
            \<and> (\<exists>i ga gb. create_generic_question concepts i ga = Inr (q, gb)))"
proof -
  let ?pool = "sentence_pool text"
  have "\<forall>q \<in> set ([] :: quiz_question list). question_invariant q" by simp
  from quiz_loop_result [OF this, of ?pool concepts "length ?pool * 2" 0 g]
  obtain questions attempts g1 where
    loop: "quiz_loop ?pool concepts (length ?pool * 2) [] 0 g = Inr (questions, attempts, g1)"
    and n: "attempts \<le> max 0 (length ?pool * 2)"
    and l: "length questions \<le> max 3 (length ([] :: quiz_question list))"
    and inv: "\<forall>q \<in> set questions. question_invariant q"
    by (elim exE conjE)
  from l have l3: "length questions \<le> 3" by simp
  from fill_generic_result [OF l3, of concepts g1]
  obtain gens g2 where
    fill: "fill_generic concepts questions g1 = Inr (questions @ gens, g2)"
    and len: "length (questions @ gens) = 3"
    and gen: "\<forall>q \<in> set gens. question_invariant q \<and> correct_answer q = ''A''
            \<and> (\<exists>i ga gb. create_generic_question concepts i ga = Inr (q, gb))"
    by (elim exE conjE)
  from n have n': "attempts \<le> 2 * length ?pool" by simp
  have res: "generate_quiz_questions text concepts g = Inr (questions @ gens, g2)"
    unfolding generate_quiz_questions_def Let_def
    by (simp only: loop fill sum.case prod.case)
  from loop n' res len inv gen show ?thesis
    by (intro exI conjI)
qed

text \<open>
  C4: generate_quiz_questions returns for every input, and returns exactly 3 questions.
  Its first loop ends after at most 2 * (size of the sentence pool) attempts, 0 attempts
  when the pool is empty (no piece of the text is longer than 20 characters after
  trimming), and the questions it accepted are followed by generic questions, as many as
  are needed for 3 in total.
\<close>

theorem generate_quiz_questions_three:
  "(\<exists>questions attempts g1 gens g2.
      quiz_loop (sentence_pool text) concepts (length (sentence_pool text) * 2) [] 0 g
        = Inr (questions, attempts, g1)
      \<and> attempts \<le> 2 * length (sentence_pool text)
      \<and> (sentence_pool text = [] \<longrightarrow> attempts = 0)
      \<and> generate_quiz_questions text concepts g = Inr (questions @ gens, g2)
      \<and> length (questions @ gens) = 3
      \<and> (\<forall>q \<in> set gens. \<exists>i ga gb. create_generic_question concepts i ga = Inr (q, gb)))
   \<and> (sentence_pool text = []) = (\<forall>s \<in> set (re_split text). length (strip s) \<le> 20)"
proof -
  from generate_quiz_questions_result [of "text" concepts g]
  obtain questions attempts g1 gens g2 where
    loop: "quiz_loop (sentence_pool text) concepts (length (sentence_pool text) * 2) [] 0 g
        = Inr (questions, attempts, g1)"
    and n: "attempts \<le> 2 * length (sentence_pool text)"
    and res: "generate_quiz_questions text concepts g = Inr (questions @ gens, g2)"
    and len: "length (questions @ gens) = 3"
    and gen: "\<forall>q \<in> set gens. question_invariant q \<and> correct_answer q = ''A''
            \<and> (\<exists>i ga gb. create_generic_question concepts i ga = Inr (q, gb))"
    by (elim exE conjE)
  have z: "sentence_pool text = [] \<longrightarrow> attempts = 0"
  proof
    assume "sentence_pool text = []"
    with n show "attempts = 0" by simp
  qed
  from gen have gen': "\<forall>q \<in> set gens. \<exists>i ga gb. create_generic_question concepts i ga = Inr (q, gb)"
    by simp
  from loop n z res len gen' have first: "\<exists>questions attempts g1 gens g2.
      quiz_loop (sentence_pool text) concepts (length (sentence_pool text) * 2) [] 0 g
        = Inr (questions, attempts, g1)
      \<and> attempts \<le> 2 * length (sentence_pool text)
      \<and> (sentence_pool text = [] \<longrightarrow> attempts = 0)
      \<and> generate_quiz_questions text concepts g = Inr (questions @ gens, g2)
      \<and> length (questions @ gens) = 3
      \<and> (\<forall>q \<in> set gens. \<exists>i ga gb. create_generic_question concepts i ga = Inr (q, gb))"
    by (intro exI conjI)
  have second: "(sentence_pool text = []) = (\<forall>s \<in> set (re_split text). length (strip s) \<le> 20)"
    by (auto simp: sentence_pool_def filter_empty_conv not_less)
  from first second show ?thesis by (rule conjI)
qed

theorem generate_quiz_questions_three_witness:
  "sentence_pool ''this is a test.'' = []
   \<and> (\<exists>questions g1.
         quiz_loop (sentence_pool ''this is a test.'') []
           (length (sentence_pool ''this is a test.'') * 2) [] 0 [] = Inr (questions, 0, g1))
   \<and> (\<exists>qs g2. generate_quiz_questions ''this is a test.'' [] [] = Inr (qs, g2) \<and> length qs = 3)"
proof -
  have p: "sentence_pool ''this is a test.'' = []"
    by code_simp
  from generate_quiz_questions_three [of "''this is a test.''" "[]" "[]"]
  obtain questions attempts g1 gens g2 where
    loop: "quiz_loop (sentence_pool ''this is a test.'') []
           (length (sentence_pool ''this is a test.'') * 2) [] 0 [] = Inr (questions, attempts, g1)"
    and z: "sentence_pool ''this is a test.'' = [] \<longrightarrow> attempts = 0"
    and res: "generate_quiz_questions ''this is a test.'' [] [] = Inr (questions @ gens, g2)"
    and len: "length (questions @ gens) = 3"
    by (elim conjE exE)
  from z p have "attempts = 0" by (rule mp)
  with loop have "quiz_loop (sentence_pool ''this is a test.'') []
           (length (sentence_pool ''this is a test.'') * 2) [] 0 [] = Inr (questions, 0, g1)"
    by (simp only:)
  then have l0: "\<exists>questions g1.
         quiz_loop (sentence_pool ''this is a test.'') []
           (length (sentence_pool ''this is a test.'') * 2) [] 0 [] = Inr (questions, 0, g1)"
    by (intro exI)
  from res len have "\<exists>qs g2. generate_quiz_questions ''this is a test.'' [] [] = Inr (qs, g2)
      \<and> length qs = 3"
    by (intro exI conjI)
  with p l0 show ?thesis by (intro conjI)
qed

text \<open>
  C1: every quiz question that the quiz synthesizer produces, built from a sentence by
  create_multiple_choice_question or by create_generic_question, has exactly 4 options, a
  correct_answer among the letters A, B, C, D, and its correct_text at the position that
  the letter names (A = 0, B = 1, C = 2, D = 3).
\<close>

theorem quiz_question_invariant:
  "(create_multiple_choice_question sentence concepts g = Inr (Some q, g') \<longrightarrow> question_invariant q)
   \<and> (create_generic_question concepts idx gg = Inr (gq, gg') \<longrightarrow> question_invariant gq)
   \<and> (generate_quiz_questions text concepts gs = Inr (qs, gs')
        \<longrightarrow> length qs = 3 \<and> (\<forall>x \<in> set qs. question_invariant x))"
proof (intro conjI impI)
  assume "create_multiple_choice_question sentence concepts g = Inr (Some q, g')"
  then show "question_invariant q"
    by (rule create_multiple_choice_question_invariant)
next
  assume a: "create_generic_question concepts idx gg = Inr (gq, gg')"
  from create_generic_question_result [of concepts idx gg]
  obtain x y where "create_generic_question concepts idx gg = Inr (x, y)"
    and "question_invariant x"
    by (elim exE conjE)
  with a show "question_invariant gq" by simp
next
  assume a: "generate_quiz_questions text concepts gs = Inr (qs, gs')"
  from generate_quiz_questions_result [of "text" concepts gs]
  obtain questions gens g2 where
    res: "generate_quiz_questions text concepts gs = Inr (questions @ gens, g2)"
    and len: "length (questions @ gens) = 3"
    and inv: "\<forall>q \<in> set questions. question_invariant q"
    and gen: "\<forall>q \<in> set gens. question_invariant q \<and> correct_answer q = ''A''
            \<and> (\<exists>i ga gb. create_generic_question concepts i ga = Inr (q, gb))"
    by (elim exE conjE)
  from a res have qs: "qs = questions @ gens" by simp
  from len qs show "length qs = 3" by simp
  from inv gen have "\<forall>x \<in> set (questions @ gens). question_invariant x"
    by (simp only: set_append ball_Un) simp
  with qs show "\<forall>x \<in> set qs. question_invariant x" by simp
qed

theorem quiz_question_invariant_witness:
  "create_multiple_choice_question ''apple tart beats apple pie'' [] [] =
     Inr (Some \<lparr>question = ''______ tart beats ______ pie'',
                options = [''Not apple'', ''Opposite of apple'', ''None of the above'', ''apple''],
                correct_answer = ''D'', correct_text = ''apple''\<rparr>, [])
   \<and> question_invariant
        \<lparr>question = ''______ tart beats ______ pie'',
         options = [''Not apple'', ''Opposite of apple'', ''None of the above'', ''apple''],
         correct_answer = ''D'', correct_text = ''apple''\<rparr>
   \<and> create_generic_question [] 0 [] = Inr (fallback_question, [])
   \<and> question_invariant fallback_question
   \<and> generate_quiz_questions ''this is a test.'' [] []
       = Inr ([fallback_question, fallback_question, fallback_question], [])
   \<and> length [fallback_question, fallback_question, fallback_question] = 3"
proof -
  let ?q = "\<lparr>question = ''______ tart beats ______ pie'',
         options = [''Not apple'', ''Opposite of apple'', ''None of the above'', ''apple''],
         correct_answer = ''D'', correct_text = ''apple''\<rparr>"
  have a: "create_multiple_choice_question ''apple tart beats apple pie'' [] [] = Inr (Some ?q, [])"
    by code_simp
  have b: "create_generic_question [] 0 [] = Inr (fallback_question, [])"
    by code_simp
  have c: "generate_quiz_questions ''this is a test.'' [] []
       = Inr ([fallback_question, fallback_question, fallback_question], [])"
    by code_simp
  note t = quiz_question_invariant [of "''apple tart beats apple pie''" "[]" "[]" ?q "[]"
      0 "[]" fallback_question "[]" "''this is a test.''" "[]"
      "[fallback_question, fallback_question, fallback_question]" "[]"]
  from t a have 1: "question_invariant ?q" by (elim conjE mp)
  from t b have 2: "question_invariant fallback_question" by (elim conjE mp)
  from t c have 3: "length [fallback_question, fallback_question, fallback_question] = 3"
    by (elim conjE) (drule (1) mp, erule conjunct1)
  from a 1 b 2 c 3 show ?thesis by (intro conjI)
qed

subsection \<open>generate_content on empty and blank input\<close>

lemma clean_text_whitespace: "\<forall>c \<in> set input_text. isspace c \<Longrightarrow> clean_text input_text = []"
proof -
  assume "\<forall>c \<in> set input_text. isspace c"
  then have d: "dropWhile isspace input_text = []" by simp
  show ?thesis
    by (simp only: clean_text_def strip_def d dropWhile.simps rev.simps sub_ws.simps)
qed

lemma generate_assignments_no_concepts:
  "generate_assignments text [] g = Inr (fallback_assignments, g)"
  by (simp add: generate_assignments_def first_assignment_def second_assignment_def
      fallback_assignments_def)

lemma create_generic_question_fallback:
  "create_generic_question [] idx g = Inr (fallback_question, g)"
  by (simp add: create_generic_question_def Let_def fallback_question_def)

lemma fill_generic_no_concepts:
  "fill_generic [] [] g = Inr ([fallback_question, fallback_question, fallback_question], g)"
proof -
  have "fill_generic [] [] g = fill_generic [] [fallback_question] g"
    using fill_generic_step [of "[]" "[]" g fallback_question g]
    by (simp add: create_generic_question_fallback)
  also have "\<dots> = fill_generic [] [fallback_question, fallback_question] g"
    using fill_generic_step [of "[fallback_question]" "[]" g fallback_question g]
    by (simp add: create_generic_question_fallback)
  also have "\<dots> = fill_generic [] [fallback_question, fallback_question, fallback_question] g"
    using fill_generic_step [of "[fallback_question, fallback_question]" "[]" g fallback_question g]
    by (simp add: create_generic_question_fallback)
  also have "\<dots> = Inr ([fallback_question, fallback_question, fallback_question], g)"
    by (rule fill_generic_stop) simp
  finally show ?thesis .
qed

lemma sentence_pool_Nil: "sentence_pool [] = []"
  by (simp add: sentence_pool_def re_split.simps strip_def)

lemma generate_quiz_questions_empty:
  "generate_quiz_questions [] [] g
     = Inr ([fallback_question, fallback_question, fallback_question], g)"
proof -
  have "quiz_loop [] [] 0 [] 0 g = Inr ([], 0, g)"
    by (rule quiz_loop_stop) simp
  then show ?thesis
    by (simp add: generate_quiz_questions_def sentence_pool_Nil fill_generic_no_concepts)
qed

lemma generate_content_whitespace_result:
  assumes "\<forall>c \<in> set input_text. isspace c"
  shows "generate_content input_text h g =
     Inr (\<lparr>assignments = fallback_assignments,
           quiz_questions = [fallback_question, fallback_question, fallback_question],
           concepts_found = []\<rparr>, g)"
proof -
  from assms have "clean_text input_text = []"
    by (rule clean_text_whitespace)
  then show ?thesis
    by (simp add: generate_content_def extract_key_concepts_Nil
        generate_assignments_no_concepts generate_quiz_questions_empty)
qed

text \<open>
  C2: for the empty input, generate_content raises nothing and returns the two fixed
  fallback assignments, three generic fallback questions (the one that
  create_generic_question gives without concepts, whose correct_answer is A) and no
  concepts. Every input made of whitespace only gives the same result, so it raises
  nothing either. The random generator is left as it was.
\<close>

theorem generate_content_empty_input:
  "generate_content [] h g =
     Inr (\<lparr>assignments = fallback_assignments,
           quiz_questions = [fallback_question, fallback_question, fallback_question],
           concepts_found = []\<rparr>, g)
   \<and> ((\<forall>c \<in> set input_text. isspace c) \<longrightarrow>
        generate_content input_text h g =
          Inr (\<lparr>assignments = fallback_assignments,
                quiz_questions = [fallback_question, fallback_question, fallback_question],
                concepts_found = []\<rparr>, g))
   \<and> create_generic_question [] idx gg = Inr (fallback_question, gg)
   \<and> correct_answer fallback_question = ''A''
   \<and> generate_assignments t [] ga = Inr (fallback_assignments, ga)
   \<and> length fallback_assignments = 2"
proof (intro conjI impI)
  have "\<forall>c \<in> set ([] :: string). isspace c" by simp
  then show "generate_content [] h g =
     Inr (\<lparr>assignments = fallback_assignments,
           quiz_questions = [fallback_question, fallback_question, fallback_question],
           concepts_found = []\<rparr>, g)"
    by (rule generate_content_whitespace_result)
next
  assume "\<forall>c \<in> set input_text. isspace c"
  then show "generate_content input_text h g =
          Inr (\<lparr>assignments = fallback_assignments,
                quiz_questions = [fallback_question, fallback_question, fallback_question],
                concepts_found = []\<rparr>, g)"
    by (rule generate_content_whitespace_result)
next
  show "create_generic_question [] idx gg = Inr (fallback_question, gg)"
    by (rule create_generic_question_fallback)
next
  show "correct_answer fallback_question = ''A''"
    by (simp add: fallback_question_def)
next
  show "generate_assignments t [] ga = Inr (fallback_assignments, ga)"
    by (rule generate_assignments_no_concepts)
next
  show "length fallback_assignments = 2"
    by (simp add: fallback_assignments_def)
qed

theorem generate_content_empty_input_witness:
  "(isspace CHR '' '' \<and> isspace CHR 0x09 \<and> isspace CHR 0x0A)
   \<and> generate_content [CHR '' '', CHR 0x09, CHR 0x0A] [] [5, 7] =
          Inr (\<lparr>assignments = fallback_assignments,
                quiz_questions = [fallback_question, fallback_question, fallback_question],
                concepts_found = []\<rparr>, [5, 7])"
proof -
  have a: "isspace CHR '' '' \<and> isspace CHR 0x09 \<and> isspace CHR 0x0A"
    by (simp add: isspace_def)
  then have b: "\<forall>c \<in> set [CHR '' '', CHR 0x09, CHR 0x0A]. isspace c"
    by simp
  from generate_content_empty_input [of "[]" "[5, 7]" "[CHR '' '', CHR 0x09, CHR 0x0A]",
      THEN conjunct2, THEN conjunct1]
  have "(\<forall>c \<in> set [CHR '' '', CHR 0x09, CHR 0x0A]. isspace c) \<longrightarrow>
        generate_content [CHR '' '', CHR 0x09, CHR 0x0A] [] [5, 7] =
          Inr (\<lparr>assignments = fallback_assignments,
                quiz_questions = [fallback_question, fallback_question, fallback_question],
                concepts_found = []\<rparr>, [5, 7])" .
  from this b have "generate_content [CHR '' '', CHR 0x09, CHR 0x0A] [] [5, 7] =
          Inr (\<lparr>assignments = fallback_assignments,
                quiz_questions = [fallback_question, fallback_question, fallback_question],
                concepts_found = []\<rparr>, [5, 7])"
    by (rule mp)
  with a show ?thesis by (rule conjI)
qed

subsection \<open>The assignment synthesizer\<close>

lemma sample_two:
  assumes n: "2 \<le> length population"
  shows "\<exists>i j g'. sample population 2 g = Inr ([population ! i, population ! j], g')
           \<and> i < length population \<and> j < length population \<and> i \<noteq> j"
proof -
  let ?n = "length population"
  obtain j0 g1 where r0: "randbelow ?n g = (j0, g1)"
    by (cases "randbelow ?n g")
  obtain j1 g2 where r1: "randbelow (?n - 1) g1 = (j1, g2)"
    by (cases "randbelow (?n - 1) g1")
  from n have p0: "0 < ?n" and p1: "0 < ?n - 1" by linarith+
  from p0 have "fst (randbelow ?n g) < ?n"
    by (rule randbelow_less)
  with r0 have j0: "j0 < ?n" by simp
  from p1 have "fst (randbelow (?n - 1) g1) < ?n - 1"
    by (rule randbelow_less)
  with r1 have j1: "j1 < ?n - 1" by simp
  let ?j = "if j1 = j0 then ?n - 1 else j1"
  from j0 have nth: "population[j0 := population ! (?n - 1)] ! j1 = population ! ?j"
    by (simp add: nth_list_update)
  have "sample_from population ?n (Suc (Suc 0)) g
          = ([population ! j0, population[j0 := population ! (?n - 1)] ! j1], g2)"
    using r0 r1 by simp
  with n nth have "sample population 2 g = Inr ([population ! j0, population ! ?j], g2)"
    by (simp add: sample_def numeral_2_eq_2)
  moreover from j1 n have "?j < ?n" by auto
  moreover from j1 have "j0 \<noteq> ?j" by auto
  ultimately show ?thesis
    using j0 by (intro exI conjI)
qed

lemma first_assignment_result:
  "\<exists>a g'. first_assignment concepts g = Inr (a, g') \<and> a \<noteq> []"
proof (cases "concepts = []")
  case True
  then show ?thesis by (simp add: first_assignment_def)
next
  case False
  then have "\<exists>x g'. choice concepts g = Inr (x, g') \<and> x \<in> set concepts"
    by (rule choice_Inr)
  then obtain main_concept g1 where c: "choice concepts g = Inr (main_concept, g1)"
    by (elim exE conjE)
  have "essay_starters \<noteq> []" by (simp add: essay_starters_def)
  then have "\<exists>x g'. choice essay_starters g1 = Inr (x, g') \<and> x \<in> set essay_starters"
    by (rule choice_Inr)
  then obtain starter g2 where s: "choice essay_starters g1 = Inr (starter, g2)"
    by (elim exE conjE)
  from False c s show ?thesis by (simp add: first_assignment_def)
qed

lemma second_assignment_result:
  "\<exists>a g'. second_assignment concepts g = Inr (a, g') \<and> a \<noteq> []
     \<and> (2 \<le> length concepts \<longrightarrow>
          (\<exists>i j. i < length concepts \<and> j < length concepts \<and> i \<noteq> j
             \<and> a = ''Compare and contrast '' @ lower (concepts ! i) @ '' and ''
                   @ lower (concepts ! j)
                   @ ''. Discuss how these concepts relate to each other and their importance in the overall context.''))"
proof (cases "2 \<le> length concepts")
  case False
  then show ?thesis by (simp add: second_assignment_def)
next
  case True
  from sample_two [OF True, of g]
  obtain i j g1 where s: "sample concepts 2 g = Inr ([concepts ! i, concepts ! j], g1)"
    and i: "i < length concepts" and j: "j < length concepts" and ij: "i \<noteq> j"
    by (elim exE conjE)
  let ?a = "''Compare and contrast '' @ lower (concepts ! i) @ '' and '' @ lower (concepts ! j)
     @ ''. Discuss how these concepts relate to each other and their importance in the overall context.''"
  from True s have eq: "second_assignment concepts g = Inr (?a, g1)"
    by (simp add: second_assignment_def)
  have ne: "?a \<noteq> []" by simp
  from i j ij have ex: "\<exists>i' j'. i' < length concepts \<and> j' < length concepts \<and> i' \<noteq> j'
      \<and> ?a = ''Compare and contrast '' @ lower (concepts ! i') @ '' and '' @ lower (concepts ! j')
     @ ''. Discuss how these concepts relate to each other and their importance in the overall context.''"
    by (intro exI conjI) (assumption, assumption, assumption, rule refl)
  then have imp: "2 \<le> length concepts \<longrightarrow>
      (\<exists>i' j'. i' < length concepts \<and> j' < length concepts \<and> i' \<noteq> j'
      \<and> ?a = ''Compare and contrast '' @ lower (concepts ! i') @ '' and '' @ lower (concepts ! j')
     @ ''. Discuss how these concepts relate to each other and their importance in the overall context.'')"
    by (rule impI)
  from eq ne imp show ?thesis by (intro exI conjI)
qed

text \<open>
  C8: generate_assignments returns for every list of concepts (empty, of one element, or
  longer) exactly 2 strings, both non-empty. When there are at least 2 concepts, the
  second assignment is the compare-and-contrast sentence on the lowercase forms of the
  concepts at two different positions of the list, which are two different concepts when
  the list has no duplicates (as a concept set has).
\<close>

theorem generate_assignments_two:
  "\<exists>a1 a2 g'. generate_assignments text concepts g = Inr ([a1, a2], g')
     \<and> a1 \<noteq> [] \<and> a2 \<noteq> []
     \<and> (2 \<le> length concepts \<longrightarrow>
          (\<exists>i j. i < length concepts \<and> j < length concepts \<and> i \<noteq> j
             \<and> (distinct concepts \<longrightarrow> concepts ! i \<noteq> concepts ! j)
             \<and> a2 = ''Compare and contrast '' @ lower (concepts ! i) @ '' and ''
                   @ lower (concepts ! j)
                   @ ''. Discuss how these concepts relate to each other and their importance in the overall context.''))"
proof -
  from first_assignment_result [of concepts g]
  obtain a1 g1 where f: "first_assignment concepts g = Inr (a1, g1)" and n1: "a1 \<noteq> []"
    by (elim exE conjE)
  from second_assignment_result [of concepts g1]
  obtain a2 g2 where s: "second_assignment concepts g1 = Inr (a2, g2)" and n2: "a2 \<noteq> []"
    and two: "2 \<le> length concepts \<longrightarrow>
          (\<exists>i j. i < length concepts \<and> j < length concepts \<and> i \<noteq> j
             \<and> a2 = ''Compare and contrast '' @ lower (concepts ! i) @ '' and ''
                   @ lower (concepts ! j)
                   @ ''. Discuss how these concepts relate to each other and their importance in the overall context.'')"
    by (elim exE conjE)
  have two': "2 \<le> length concepts \<longrightarrow>
          (\<exists>i j. i < length concepts \<and> j < length concepts \<and> i \<noteq> j
             \<and> (distinct concepts \<longrightarrow> concepts ! i \<noteq> concepts ! j)
             \<and> a2 = ''Compare and contrast '' @ lower (concepts ! i) @ '' and ''
                   @ lower (concepts ! j)
                   @ ''. Discuss how these concepts relate to each other and their importance in the overall context.'')"
  proof
    assume "2 \<le> length concepts"
    with two obtain i j where i: "i < length concepts" and j: "j < length concepts"
      and ij: "i \<noteq> j"
      and a: "a2 = ''Compare and contrast '' @ lower (concepts ! i) @ '' and ''
                   @ lower (concepts ! j)
                   @ ''. Discuss how these concepts relate to each other and their importance in the overall context.''"
      by (elim impE exE conjE)
    from i j ij have d: "distinct concepts \<longrightarrow> concepts ! i \<noteq> concepts ! j"
      by (simp add: nth_eq_iff_index_eq)
    from i j ij d a show "\<exists>i j. i < length concepts \<and> j < length concepts \<and> i \<noteq> j
             \<and> (distinct concepts \<longrightarrow> concepts ! i \<noteq> concepts ! j)
             \<and> a2 = ''Compare and contrast '' @ lower (concepts ! i) @ '' and ''
                   @ lower (concepts ! j)
                   @ ''. Discuss how these concepts relate to each other and their importance in the overall context.''"
      by (intro exI conjI)
  qed
  have "generate_assignments text concepts g = Inr ([a1, a2], g2)"
    unfolding generate_assignments_def
    by (simp only: f s sum.case prod.case)
  with n1 n2 two' show ?thesis by (intro exI conjI)
qed

theorem generate_assignments_two_witness:
  "2 \<le> length [''Alpha'', ''Beta'', ''Gamma'']
   \<and> distinct [''Alpha'', ''Beta'', ''Gamma'']
   \<and> generate_assignments [] [''Alpha'', ''Beta'', ''Gamma''] [2, 3, 2, 2] =
       Inr ([''Explain the relationship between gamma as discussed in the provided material. Support your analysis with specific examples and explain its broader implications.'',
             ''Compare and contrast gamma and alpha. Discuss how these concepts relate to each other and their importance in the overall context.''],
            [])
   \<and> (\<exists>a1 a2 g' i j. generate_assignments [] [''Alpha'', ''Beta'', ''Gamma''] [2, 3, 2, 2]
          = Inr ([a1, a2], g')
        \<and> i < length [''Alpha'', ''Beta'', ''Gamma''] \<and> j < length [''Alpha'', ''Beta'', ''Gamma'']
        \<and> [''Alpha'', ''Beta'', ''Gamma''] ! i \<noteq> [''Alpha'', ''Beta'', ''Gamma''] ! j
        \<and> a2 = ''Compare and contrast '' @ lower ([''Alpha'', ''Beta'', ''Gamma''] ! i) @ '' and ''
                   @ lower ([''Alpha'', ''Beta'', ''Gamma''] ! j)
                   @ ''. Discuss how these concepts relate to each other and their importance in the overall context.'')"
proof -
  let ?cs = "[''Alpha'', ''Beta'', ''Gamma'']"
  have l: "2 \<le> length ?cs" by simp
  have d: "distinct ?cs" by simp
  have e: "generate_assignments [] ?cs [2, 3, 2, 2] =
       Inr ([''Explain the relationship between gamma as discussed in the provided material. Support your analysis with specific examples and explain its broader implications.'',
             ''Compare and contrast gamma and alpha. Discuss how these concepts relate to each other and their importance in the overall context.''],
            [])"
    by code_simp
  from generate_assignments_two [of "[]" ?cs "[2, 3, 2, 2]"]
  obtain a1 a2 g' where r: "generate_assignments [] ?cs [2, 3, 2, 2] = Inr ([a1, a2], g')"
    and imp: "2 \<le> length ?cs \<longrightarrow>
          (\<exists>i j. i < length ?cs \<and> j < length ?cs \<and> i \<noteq> j
             \<and> (distinct ?cs \<longrightarrow> ?cs ! i \<noteq> ?cs ! j)
             \<and> a2 = ''Compare and contrast '' @ lower (?cs ! i) @ '' and ''
                   @ lower (?cs ! j)
                   @ ''. Discuss how these concepts relate to each other and their importance in the overall context.'')"
    by (elim exE conjE)
  from imp l have "\<exists>i j. i < length ?cs \<and> j < length ?cs \<and> i \<noteq> j
             \<and> (distinct ?cs \<longrightarrow> ?cs ! i \<noteq> ?cs ! j)
             \<and> a2 = ''Compare and contrast '' @ lower (?cs ! i) @ '' and ''
                   @ lower (?cs ! j)
                   @ ''. Discuss how these concepts relate to each other and their importance in the overall context.''"
    by (rule mp)
  then obtain i j where i: "i < length ?cs" and j: "j < length ?cs"
    and dd: "distinct ?cs \<longrightarrow> ?cs ! i \<noteq> ?cs ! j"
    and a: "a2 = ''Compare and contrast '' @ lower (?cs ! i) @ '' and ''
                   @ lower (?cs ! j)
                   @ ''. Discuss how these concepts relate to each other and their importance in the overall context.''"
    by (elim exE conjE)
  from dd d have ne: "?cs ! i \<noteq> ?cs ! j" by (rule mp)
  from r i j ne a have "\<exists>a1 a2 g' i j. generate_assignments [] ?cs [2, 3, 2, 2]
          = Inr ([a1, a2], g')
        \<and> i < length ?cs \<and> j < length ?cs
        \<and> ?cs ! i \<noteq> ?cs ! j
        \<and> a2 = ''Compare and contrast '' @ lower (?cs ! i) @ '' and ''
                   @ lower (?cs ! j)
                   @ ''. Discuss how these concepts relate to each other and their importance in the overall context.''"
    by (intro exI conjI)
  with l d e show ?thesis by (intro conjI)
qed

subsection \<open>The question text\<close>

lemma py_replace_first_occurrence:
  "old \<noteq> [] \<Longrightarrow> \<not> sublist old (a @ butlast old) \<Longrightarrow>
     py_replace (a @ old @ b) old new = a @ new @ py_replace b old new"
proof (induction a)
  case Nil
  then have "py_replace (old @ b) old new = new @ py_replace (drop (length old) (old @ b)) old new"
    by (subst py_replace.simps) simp
  then show ?case by simp
next
  case (Cons c a)
  have np: "\<not> prefix old ((c # a) @ old @ b)"
  proof
    assume "prefix old ((c # a) @ old @ b)"
    then have "old = take (length old) ((c # a) @ old @ b)"
      by (metis append_eq_conv_conj prefixE)
    also have "(c # a) @ old @ b = ((c # a) @ butlast old) @ ([last old] @ b)"
      using Cons.prems(1) by simp
    also have "take (length old) (((c # a) @ butlast old) @ ([last old] @ b))
        = take (length old) ((c # a) @ butlast old)"
    proof -
      have gen: "\<And>n (xs :: string) ys. n \<le> length xs \<Longrightarrow> take n (xs @ ys) = take n xs"
        by simp
      have "length old \<le> length ((c # a) @ butlast old)"
        by simp
      then show ?thesis by (rule gen)
    qed
    finally have "prefix old ((c # a) @ butlast old)"
      by (metis take_is_prefix)
    then have "sublist old ((c # a) @ butlast old)"
      by (rule prefix_imp_sublist)
    with Cons.prems(2) show False by simp
  qed
  from Cons.prems(2) have "\<not> sublist old (a @ butlast old)"
    by (simp add: sublist_Cons_right)
  with Cons.prems(1) Cons.IH
  have ih: "py_replace (a @ old @ b) old new = a @ new @ py_replace b old new"
    by simp
  from Cons.prems(1) np
  have "py_replace ((c # a) @ old @ b) old new = c # py_replace (a @ old @ b) old new"
    by (subst py_replace.simps) simp
  with ih show ?case by simp
qed

lemma create_multiple_choice_question_text:
  assumes r: "create_multiple_choice_question sentence concepts g = Inr (Some q, g')"
  shows "question q = py_replace (strip sentence) (correct_text q) blank_marker
         \<and> sublist (correct_text q) (strip sentence)
         \<and> sublist blank_marker (question q)"
proof -
  from create_multiple_choice_question_result [of sentence concepts g]
  show ?thesis
  proof (elim disjE exE conjE)
    assume "create_multiple_choice_question sentence concepts g = Inr (None, g)"
    with r show ?thesis by simp
  next
    fix word opts i g2
    assume w: "word \<in> set (answer_candidates (split_ws (strip sentence)))"
      and eq: "create_multiple_choice_question sentence concepts g =
         Inr (Some \<lparr>question = py_replace (strip sentence) (strip_chars ''.,!?'' word) blank_marker,
                    options = opts, correct_answer = [char_of (65 + i)],
                    correct_text = strip_chars ''.,!?'' word\<rparr>, g2)"
    from r eq have q: "q = \<lparr>question = py_replace (strip sentence) (strip_chars ''.,!?'' word) blank_marker,
                    options = opts, correct_answer = [char_of (65 + i)],
                    correct_text = strip_chars ''.,!?'' word\<rparr>"
      by simp
    from w have sub: "sublist (strip_chars ''.,!?'' word) (strip sentence)"
      by (rule candidate_sublist)
    then have "sublist blank_marker
        (py_replace (strip sentence) (strip_chars ''.,!?'' word) blank_marker)"
      by (intro py_replace_marker disjI2)
    with sub show ?thesis
      unfolding q by (simp only: quiz_question.simps simp_thms)
  qed
qed

text \<open>
  C9: in create_multiple_choice_question the templated question is never built. For every
  sentence and every answer candidate of it, the candidate with its leading and trailing
  characters from .,!? removed is a contiguous piece of the trimmed sentence (the empty
  string included), the sentence with the answer replaced contains the marker ______, and
  the question text is that replaced sentence, with no draw of a starter. So the question
  of every built record contains the marker; and a record is built whenever the trimmed
  sentence is non-empty and has a candidate.
\<close>

theorem blank_marker_always_present:
  "(word \<in> set (answer_candidates (split_ws (strip sentence))) \<longrightarrow>
      (\<exists>pre post. strip sentence = pre @ strip_chars ''.,!?'' word @ post)
      \<and> (\<exists>pre post. py_replace (strip sentence) (strip_chars ''.,!?'' word) blank_marker
                       = pre @ blank_marker @ post)
      \<and> question_text_of (strip sentence) (strip_chars ''.,!?'' word) g
          = Inr (py_replace (strip sentence) (strip_chars ''.,!?'' word) blank_marker, g))
   \<and> (create_multiple_choice_question sentence concepts g = Inr (Some q, g') \<longrightarrow>
        (\<exists>pre post. question q = pre @ blank_marker @ post))
   \<and> (strip sentence \<noteq> [] \<and> answer_candidates (split_ws (strip sentence)) \<noteq> [] \<longrightarrow>
        (\<exists>q' g''. create_multiple_choice_question sentence concepts g = Inr (Some q', g'')))"
proof (intro conjI impI)
  assume w: "word \<in> set (answer_candidates (split_ws (strip sentence)))"
  then have sub: "sublist (strip_chars ''.,!?'' word) (strip sentence)"
    by (rule candidate_sublist)
  then show "\<exists>pre post. strip sentence = pre @ strip_chars ''.,!?'' word @ post"
    by (simp only: sublist_def)
  from sub have "sublist blank_marker
      (py_replace (strip sentence) (strip_chars ''.,!?'' word) blank_marker)"
    by (intro py_replace_marker disjI2)
  then show "\<exists>pre post. py_replace (strip sentence) (strip_chars ''.,!?'' word) blank_marker
                       = pre @ blank_marker @ post"
    by (simp only: sublist_def)
  from sub show "question_text_of (strip sentence) (strip_chars ''.,!?'' word) g
          = Inr (py_replace (strip sentence) (strip_chars ''.,!?'' word) blank_marker, g)"
    by (rule question_text_of_replace)
next
  assume "create_multiple_choice_question sentence concepts g = Inr (Some q, g')"
  then have "sublist blank_marker (question q)"
    by (intro create_multiple_choice_question_text [THEN conjunct2, THEN conjunct2])
  then show "\<exists>pre post. question q = pre @ blank_marker @ post"
    by (simp only: sublist_def)
next
  assume "strip sentence \<noteq> [] \<and> answer_candidates (split_ws (strip sentence)) \<noteq> []"
  then have s: "strip sentence \<noteq> []"
    and c: "answer_candidates (split_ws (strip sentence)) \<noteq> []"
    by (rule conjunct1, rule conjunct2)
  from create_multiple_choice_question_built [OF s c, of concepts g]
  obtain x g2 where "create_multiple_choice_question sentence concepts g = Inr (Some x, g2)"
    by (elim exE conjE)
  then show "\<exists>q' g''. create_multiple_choice_question sentence concepts g = Inr (Some q', g'')"
    by (intro exI)
qed

theorem blank_marker_always_present_witness:
  "''tiger!!'' \<in> set (answer_candidates (split_ws (strip ''Go tiger!!'')))
   \<and> strip_chars ''.,!?'' ''tiger!!'' = ''tiger''
   \<and> py_replace (strip ''Go tiger!!'') ''tiger'' blank_marker = ''Go ______!!''
   \<and> question_text_of (strip ''Go tiger!!'') (strip_chars ''.,!?'' ''tiger!!'') [4]
       = Inr (py_replace (strip ''Go tiger!!'') (strip_chars ''.,!?'' ''tiger!!'') blank_marker, [4])
   \<and> strip ''Go tiger!!'' \<noteq> []
   \<and> answer_candidates (split_ws (strip ''Go tiger!!'')) \<noteq> []
   \<and> (\<exists>q' g''. create_multiple_choice_question ''Go tiger!!'' [] [4] = Inr (Some q', g''))"
proof -
  have w: "''tiger!!'' \<in> set (answer_candidates (split_ws (strip ''Go tiger!!'')))"
    by code_simp
  have a: "strip_chars ''.,!?'' ''tiger!!'' = ''tiger''"
    by code_simp
  have p: "py_replace (strip ''Go tiger!!'') ''tiger'' blank_marker = ''Go ______!!''"
    by code_simp
  have s: "strip ''Go tiger!!'' \<noteq> []"
    by code_simp
  have c: "answer_candidates (split_ws (strip ''Go tiger!!'')) \<noteq> []"
    by code_simp
  note t = blank_marker_always_present [of "''tiger!!''" "''Go tiger!!''" "[4]" "[]"]
  from t [THEN conjunct1] w
  have "(\<exists>pre post. strip ''Go tiger!!'' = pre @ strip_chars ''.,!?'' ''tiger!!'' @ post)
      \<and> (\<exists>pre post. py_replace (strip ''Go tiger!!'') (strip_chars ''.,!?'' ''tiger!!'') blank_marker
                       = pre @ blank_marker @ post)
      \<and> question_text_of (strip ''Go tiger!!'') (strip_chars ''.,!?'' ''tiger!!'') [4]
          = Inr (py_replace (strip ''Go tiger!!'') (strip_chars ''.,!?'' ''tiger!!'') blank_marker, [4])"
    by (rule mp)
  then have q: "question_text_of (strip ''Go tiger!!'') (strip_chars ''.,!?'' ''tiger!!'') [4]
          = Inr (py_replace (strip ''Go tiger!!'') (strip_chars ''.,!?'' ''tiger!!'') blank_marker, [4])"
    by (elim conjE)
  from s c have "strip ''Go tiger!!'' \<noteq> [] \<and> answer_candidates (split_ws (strip ''Go tiger!!'')) \<noteq> []"
    by (rule conjI)
  with t [THEN conjunct2, THEN conjunct2]
  have e: "\<exists>q' g''. create_multiple_choice_question ''Go tiger!!'' [] [4] = Inr (Some q', g'')"
    by (rule mp)
  from w a p q s c e show ?thesis by (intro conjI)
qed

text \<open>
  C3, as the specification states it, fails: in the sentence "apple tart beats apple pie"
  with the answer apple, both occurrences of the answer become the marker, while a
  replacement of the first occurrence only leaves the second one in place.
\<close>

theorem first_occurrence_only_counterexample:
  "create_multiple_choice_question ''apple tart beats apple pie'' [] [] =
     Inr (Some \<lparr>question = ''______ tart beats ______ pie'',
                options = [''Not apple'', ''Opposite of apple'', ''None of the above'', ''apple''],
                correct_answer = ''D'', correct_text = ''apple''\<rparr>, [])
   \<and> replace_first ''apple tart beats apple pie'' ''apple'' blank_marker
       = ''______ tart beats apple pie''
   \<and> ''______ tart beats ______ pie''
       \<noteq> replace_first ''apple tart beats apple pie'' ''apple'' blank_marker"
  by code_simp

text \<open>
  C3, amended: the question text of every built record is the trimmed sentence in which
  str.replace has replaced the answer by the marker ______, that is every occurrence of
  it, found from left to right without overlap: once the first occurrence is replaced,
  the rest of the sentence is treated in the same way.
\<close>

theorem question_text_replaces_every_occurrence:
  "(create_multiple_choice_question sentence concepts g = Inr (Some q, g') \<longrightarrow>
      question q = py_replace (strip sentence) (correct_text q) blank_marker)
   \<and> (old \<noteq> [] \<and> \<not> sublist old (a @ butlast old) \<longrightarrow>
        py_replace (a @ old @ b) old new = a @ new @ py_replace b old new)"
proof (intro conjI impI)
  assume "create_multiple_choice_question sentence concepts g = Inr (Some q, g')"
  then show "question q = py_replace (strip sentence) (correct_text q) blank_marker"
    by (intro create_multiple_choice_question_text [THEN conjunct1])
next
  assume "old \<noteq> [] \<and> \<not> sublist old (a @ butlast old)"
  then have "old \<noteq> []" and "\<not> sublist old (a @ butlast old)"
    by (rule conjunct1, rule conjunct2)
  then show "py_replace (a @ old @ b) old new = a @ new @ py_replace b old new"
    by (rule py_replace_first_occurrence)
qed

theorem question_text_replaces_every_occurrence_witness:
  "create_multiple_choice_question ''apple tart beats apple pie'' [] [] =
     Inr (Some \<lparr>question = ''______ tart beats ______ pie'',
                options = [''Not apple'', ''Opposite of apple'', ''None of the above'', ''apple''],
                correct_answer = ''D'', correct_text = ''apple''\<rparr>, [])
   \<and> ''______ tart beats ______ pie''
       = py_replace (strip ''apple tart beats apple pie'') ''apple'' blank_marker
   \<and> ''apple'' \<noteq> [] \<and> \<not> sublist ''apple'' ('' tart beats '' @ butlast ''apple'')
   \<and> py_replace ('' tart beats '' @ ''apple'' @ '' pie'') ''apple'' ''______''
       = '' tart beats '' @ ''______'' @ py_replace '' pie'' ''apple'' ''______''"
proof -
  let ?q = "\<lparr>question = ''______ tart beats ______ pie'',
                options = [''Not apple'', ''Opposite of apple'', ''None of the above'', ''apple''],
                correct_answer = ''D'', correct_text = ''apple''\<rparr>"
  have e: "create_multiple_choice_question ''apple tart beats apple pie'' [] [] = Inr (Some ?q, [])"
    by code_simp
  have n: "''apple'' \<noteq> []" by simp
  have s: "\<not> sublist ''apple'' ('' tart beats '' @ butlast ''apple'')"
    by code_simp
  note t = question_text_replaces_every_occurrence
    [of "''apple tart beats apple pie''" "[]" "[]" ?q "[]" "''apple''" "'' tart beats ''"
       "'' pie''" "''______''"]
  from t [THEN conjunct1] e
  have "question ?q = py_replace (strip ''apple tart beats apple pie'') (correct_text ?q) blank_marker"
    by (rule mp)
  then have 1: "''______ tart beats ______ pie''
       = py_replace (strip ''apple tart beats apple pie'') ''apple'' blank_marker"
    by (simp only: quiz_question.simps)
  from n s have "''apple'' \<noteq> [] \<and> \<not> sublist ''apple'' ('' tart beats '' @ butlast ''apple'')"
    by (rule conjI)
  with t [THEN conjunct2]
  have 2: "py_replace ('' tart beats '' @ ''apple'' @ '' pie'') ''apple'' ''______''
       = '' tart beats '' @ ''______'' @ py_replace '' pie'' ''apple'' ''______''"
    by (rule mp)
  from e 1 n s 2 show ?thesis by (intro conjI)
qed

text \<open>
  C10: the correct_text of a question built from a sentence can be shorter than 5
  characters and can be empty, since the test len(word) > 4 reads the token before the
  characters .,!? are stripped from it. The sentence "....." has the single candidate
  ".....", and its question has the empty correct_text; the sentence "cat!! sat" gives
  the correct_text "cat".
\<close>

theorem correct_text_can_be_empty:
  "(\<exists>q g'. create_multiple_choice_question ''.....'' concepts g = Inr (Some q, g')
       \<and> correct_text q = [])
   \<and> (\<exists>q g'. create_multiple_choice_question ''cat!! sat'' concepts g = Inr (Some q, g')
       \<and> correct_text q = ''cat'')
   \<and> answer_candidates (split_ws (strip ''.....'')) = [''.....'']
   \<and> 4 < length ''.....''
   \<and> strip_chars ''.,!?'' ''.....'' = []
   \<and> answer_candidates (split_ws (strip ''cat!! sat'')) = [''cat!!'']
   \<and> strip_chars ''.,!?'' ''cat!!'' = ''cat''"
proof -
  have s1: "strip ''.....'' \<noteq> []" by code_simp
  have c1: "answer_candidates (split_ws (strip ''.....'')) = [''.....'']" by code_simp
  have a1: "strip_chars ''.,!?'' ''.....'' = []" by code_simp
  have s2: "strip ''cat!! sat'' \<noteq> []" by code_simp
  have c2: "answer_candidates (split_ws (strip ''cat!! sat'')) = [''cat!!'']" by code_simp
  have a2: "strip_chars ''.,!?'' ''cat!!'' = ''cat''" by code_simp
  from c1 have n1: "answer_candidates (split_ws (strip ''.....'')) \<noteq> []" by simp
  from c2 have n2: "answer_candidates (split_ws (strip ''cat!! sat'')) \<noteq> []" by simp
  from create_multiple_choice_question_built [OF s1 n1, of concepts g]
  obtain word opts and i :: nat and g2 where w: "word \<in> set (answer_candidates (split_ws (strip ''.....'')))"
    and eq: "create_multiple_choice_question ''.....'' concepts g =
         Inr (Some \<lparr>question = py_replace (strip ''.....'') (strip_chars ''.,!?'' word) blank_marker,
                    options = opts, correct_answer = [char_of (65 + i)],
                    correct_text = strip_chars ''.,!?'' word\<rparr>, g2)"
    by (elim exE conjE)
  from w c1 have "word = ''.....''" by simp
  with a1 have "strip_chars ''.,!?'' word = []" by simp
  with eq have 1: "\<exists>q g'. create_multiple_choice_question ''.....'' concepts g = Inr (Some q, g')
       \<and> correct_text q = []"
    by (intro exI conjI) (assumption, simp)
  from create_multiple_choice_question_built [OF s2 n2, of concepts g]
  obtain word' opts' and i' :: nat and g2' where w': "word' \<in> set (answer_candidates (split_ws (strip ''cat!! sat'')))"
    and eq': "create_multiple_choice_question ''cat!! sat'' concepts g =
         Inr (Some \<lparr>question = py_replace (strip ''cat!! sat'') (strip_chars ''.,!?'' word') blank_marker,
                    options = opts', correct_answer = [char_of (65 + i')],
                    correct_text = strip_chars ''.,!?'' word'\<rparr>, g2')"
    by (elim exE conjE)
  from w' c2 have "word' = ''cat!!''" by simp
  with a2 have "strip_chars ''.,!?'' word' = ''cat''" by simp
  with eq' have 2: "\<exists>q g'. create_multiple_choice_question ''cat!! sat'' concepts g = Inr (Some q, g')
       \<and> correct_text q = ''cat''"
    by (intro exI conjI) (assumption, simp)
  have l: "4 < length ''.....''" by simp
  from 1 2 c1 l a1 c2 a2 show ?thesis by (intro conjI)
qed

end
